theory Spec2Isabelle
  imports Main "HOL-Library.Char_ord" "HOL-Library.List_Lexorder"
begin

section \<open>Exceptions\<close>

text \<open>
  The exceptions that the functions of \<^verbatim>\<open>preserve/preserve.py\<close> can raise are Python
  built-ins. The last two constructors are the error names of the design document;
  no function of the source constructs them, they are here so that statements can speak
  about them.
\<close>

datatype error =
    FileNotFoundError
  | PermissionError
  | IsADirectoryError
  | IndexError
  | KeyError
  | TypeError
  | ValueError
  | NotFoundError
  | EmptyIntersectionError

section \<open>Strings and paths (\<^verbatim>\<open>str\<close>, \<^verbatim>\<open>os.path\<close> on POSIX)\<close>

definition startswith :: "string \<Rightarrow> string \<Rightarrow> bool" where
  "startswith s p = (take (length p) s = p)"

definition endswith :: "string \<Rightarrow> string \<Rightarrow> bool" where
  "endswith s p = (length p \<le> length s \<and> drop (length s - length p) s = p)"

text \<open>\<^verbatim>\<open>posixpath.join(a, b)\<close>: an absolute second part replaces the first.\<close>

definition join :: "string \<Rightarrow> string \<Rightarrow> string" where
  "join a b =
     (if startswith b ''/'' then b
      else if a = [] \<or> endswith a ''/'' then a @ b
      else a @ ''/'' @ b)"

text \<open>\<^verbatim>\<open>posixpath.isabs\<close>, \<^verbatim>\<open>basename\<close> and \<^verbatim>\<open>dirname\<close>.\<close>

definition isabs :: "string \<Rightarrow> bool" where
  "isabs p = startswith p ''/''"

definition basename :: "string \<Rightarrow> string" where
  "basename p = rev (takeWhile (\<lambda>c. c \<noteq> CHR ''/'') (rev p))"

definition rstrip :: "char \<Rightarrow> string \<Rightarrow> string" where
  "rstrip c s = rev (dropWhile (\<lambda>x. x = c) (rev s))"

definition lstrip :: "char \<Rightarrow> string \<Rightarrow> string" where
  "lstrip c s = dropWhile (\<lambda>x. x = c) s"

definition dirname :: "string \<Rightarrow> string" where
  "dirname p =
     (let head = rev (dropWhile (\<lambda>c. c \<noteq> CHR ''/'') (rev p))
      in if head \<noteq> [] \<and> head \<noteq> replicate (length head) CHR ''/''
         then rstrip CHR ''/'' head else head)"

text \<open>\<^verbatim>\<open>str.split('/')\<close> and \<^verbatim>\<open>'/'.join(comps)\<close>.\<close>

fun split_sep :: "string \<Rightarrow> string list" where
  "split_sep [] = [[]]"
| "split_sep (c # cs) =
     (if c = CHR ''/'' then [] # split_sep cs
      else (case split_sep cs of [] \<Rightarrow> [[c]] | h # t \<Rightarrow> (c # h) # t))"

fun join_sep :: "string list \<Rightarrow> string" where
  "join_sep [] = []"
| "join_sep [c] = c"
| "join_sep (c # cs) = c @ ''/'' @ join_sep cs"

text \<open>
  \<^verbatim>\<open>posixpath.normpath\<close>: the loop over the components keeps a stack \<^verbatim>\<open>new_comps\<close>;
  \<^verbatim>\<open>initial_slashes\<close> is 0, 1 or 2.
\<close>

definition initial_slashes :: "string \<Rightarrow> nat" where
  "initial_slashes path =
     (if \<not> startswith path ''/'' then 0
      else if startswith path ''//'' \<and> \<not> startswith path ''///'' then 2
      else 1)"

definition normpath_step :: "nat \<Rightarrow> string list \<Rightarrow> string \<Rightarrow> string list" where
  "normpath_step slashes new_comps cmp =
     (if cmp = [] \<or> cmp = ''.'' then new_comps
      else if cmp \<noteq> ''..'' \<or> (slashes = 0 \<and> new_comps = [])
              \<or> (new_comps \<noteq> [] \<and> last new_comps = ''..'')
      then new_comps @ [cmp]
      else if new_comps \<noteq> [] then butlast new_comps
      else new_comps)"

definition normpath :: "string \<Rightarrow> string" where
  "normpath path =
     (if path = [] then ''.''
      else let slashes = initial_slashes path;
               comps = foldl (normpath_step slashes) [] (split_sep path);
               p = replicate slashes CHR ''/'' @ join_sep comps
           in if p = [] then ''.'' else p)"

text \<open>\<^verbatim>\<open>os.path.abspath\<close>, with the working directory that \<^verbatim>\<open>os.getcwd()\<close> returns.\<close>

definition abspath :: "string \<Rightarrow> string \<Rightarrow> string" where
  "abspath cwd path = normpath (if isabs path then path else join cwd path)"

text \<open>
  \<^verbatim>\<open>os.path.splitext(p)[1]\<close>: the extension starts at the last dot of the last
  component, unless only dots precede it there.
\<close>

definition splitext_ext :: "string \<Rightarrow> string" where
  "splitext_ext p =
     (let r = rev (basename p);
          e = takeWhile (\<lambda>c. c \<noteq> CHR ''.'') r;
          rest = dropWhile (\<lambda>c. c \<noteq> CHR ''.'') r
      in if rest = [] then []
         else if list_ex (\<lambda>c. c \<noteq> CHR ''.'') (tl rest) then CHR ''.'' # rev e
         else [])"

text \<open>
  \<^verbatim>\<open>str.upper\<close> on the letters a to z; a \<^typ>\<open>char\<close> is a byte, so other letters are
  left as they are.
\<close>

definition upper_char :: "char \<Rightarrow> char" where
  "upper_char c =
     (case map_of (zip ''abcdefghijklmnopqrstuvwxyz'' ''ABCDEFGHIJKLMNOPQRSTUVWXYZ'') c of
        None \<Rightarrow> c
      | Some u \<Rightarrow> u)"

definition upper :: "string \<Rightarrow> string" where
  "upper s = map upper_char s"

text \<open>\<^verbatim>\<open>str(n)\<close> for an integer.\<close>

definition digit :: "nat \<Rightarrow> char" where
  "digit n = ''0123456789'' ! n"

function str_nat :: "nat \<Rightarrow> string" where
  "str_nat n = (if n < 10 then [digit n] else str_nat (n div 10) @ [digit (n mod 10)])"
  by pat_completeness auto
termination
  by (relation "measure id") auto

declare str_nat.simps [simp del]

definition str_int :: "int \<Rightarrow> string" where
  "str_int i = (if i < 0 then CHR ''-'' # str_nat (nat (- i)) else str_nat (nat i))"

section \<open>The directory tree and \<^verbatim>\<open>list_files\<close>\<close>

text \<open>
  What \<^verbatim>\<open>os.scandir\<close> finds in a directory, in its order: entries that are directories
  (with their own content) and entries that are not.
\<close>

datatype entry = File string | Dir string "entry list"

fun files_in :: "entry list \<Rightarrow> string list" where
  "files_in [] = []"
| "files_in (File f # es) = f # files_in es"
| "files_in (Dir d sub # es) = files_in es"

fun dirs_in :: "entry list \<Rightarrow> (string \<times> entry list) list" where
  "dirs_in [] = []"
| "dirs_in (File f # es) = dirs_in es"
| "dirs_in (Dir d sub # es) = (d, sub) # dirs_in es"

lemma dirs_in_size:
  "(d, sub) \<in> set (dirs_in es) \<Longrightarrow> size_list size sub < size_list size es"
  by (induction es rule: dirs_in.induct) auto

text \<open>
  The loop of \<^verbatim>\<open>list_files\<close> over \<^verbatim>\<open>os.walk(path)\<close>, top-down: at each directory the
  names beginning with a dot are removed from \<^verbatim>\<open>dirs\<close> and \<^verbatim>\<open>files\<close>, the remaining files
  are appended to the result joined with the directory's path, and the walk descends
  into the remaining directories only.
\<close>

function walk :: "string \<Rightarrow> entry list \<Rightarrow> string list" where
  "walk root es =
     map (join root) (filter (\<lambda>f. \<not> startswith f ''.'') (files_in es)) @
     concat (map (\<lambda>(d, sub). walk (join root d) sub)
                 (filter (\<lambda>(d, sub). \<not> startswith d ''.'') (dirs_in es)))"
  by pat_completeness auto
termination
  by (relation "measure (\<lambda>(root, es). size_list size es)") (auto dest: dirs_in_size)

declare walk.simps [simp del]

text \<open>
  \<^verbatim>\<open>os.walk\<close> is called without \<^verbatim>\<open>onerror\<close>: when the top path is not a directory that
  can be listed (it does not exist, or it is a file) the walk yields nothing, and
  \<^verbatim>\<open>list_files\<close> returns the empty list. The first argument is the file system as the
  scan sees it: the content of the directory at a path, if there is one.
\<close>

definition list_files :: "(string \<Rightarrow> entry list option) \<Rightarrow> string \<Rightarrow> string list" where
  "list_files tree path =
     (case tree path of None \<Rightarrow> [] | Some es \<Rightarrow> walk path es)"




section \<open>Python values, dictionaries and the \<^verbatim>\<open>csv\<close> module\<close>

text \<open>
  A \<^verbatim>\<open>dict\<close> keeps its keys in insertion order, and assigning to a key that is already
  there keeps the key's place: an association list with \<open>dict_set\<close>.
\<close>

fun dict_set :: "('k \<times> 'v) list \<Rightarrow> 'k \<Rightarrow> 'v \<Rightarrow> ('k \<times> 'v) list" where
  "dict_set [] k v = [(k, v)]"
| "dict_set ((k', v') # d) k v =
     (if k' = k then (k', v) # d else (k', v') # dict_set d k v)"

definition dict_zip :: "'k list \<Rightarrow> 'v list \<Rightarrow> ('k \<times> 'v) list" where
  "dict_zip ks vs = foldl (\<lambda>d (k, v). dict_set d k v) [] (zip ks vs)"

text \<open>
  The values a row dictionary holds: strings read from a file, the integers of a fresh
  record, and \<^verbatim>\<open>None\<close> for a column that a short row does not reach. The fields of a
  long row beyond the header are kept under the key \<^verbatim>\<open>None\<close>: \<open>restkey\<close>.
\<close>

datatype pyval = PyStr string | PyInt int | PyNone

record rowdict =
  items :: "(string \<times> pyval) list"
  restkey :: "string list option"

text \<open>
  A CSV file is taken at the level of its records, the lists of fields that
  \<^verbatim>\<open>csv.reader\<close> returns for it and that \<^verbatim>\<open>csv.writer\<close> is given (a blank line is the
  record \<open>[]\<close>); quoting and line ends are below this model. \<^verbatim>\<open>csv.DictReader\<close> takes
  the first record as the field names and skips blank records.
\<close>

definition DictReader_row :: "string list \<Rightarrow> string list \<Rightarrow> rowdict" where
  "DictReader_row fieldnames row =
     (let d = dict_zip fieldnames (map PyStr row);
          lf = length fieldnames;
          lr = length row
      in if lf < lr then \<lparr>items = d, restkey = Some (drop lf row)\<rparr>
         else if lf > lr
         then \<lparr>items = foldl (\<lambda>d key. dict_set d key PyNone) d (drop lr fieldnames),
               restkey = None\<rparr>
         else \<lparr>items = d, restkey = None\<rparr>)"

definition DictReader :: "string list list \<Rightarrow> rowdict list" where
  "DictReader records =
     (case records of
        [] \<Rightarrow> []
      | fieldnames # rows \<Rightarrow> map (DictReader_row fieldnames) (filter (\<lambda>r. r \<noteq> []) rows))"

text \<open>
  \<^verbatim>\<open>csv.DictWriter\<close> with \<^verbatim>\<open>extrasaction='raise'\<close> and \<^verbatim>\<open>restval=''\<close>: a key outside the
  field names is a \<^verbatim>\<open>ValueError\<close>, a missing key is written as the empty string, and
  so is \<^verbatim>\<open>None\<close>.
\<close>

definition cell :: "pyval option \<Rightarrow> string" where
  "cell v = (case v of None \<Rightarrow> [] | Some PyNone \<Rightarrow> [] | Some (PyStr s) \<Rightarrow> s
             | Some (PyInt i) \<Rightarrow> str_int i)"

definition dict_to_list :: "string list \<Rightarrow> rowdict \<Rightarrow> error + string list" where
  "dict_to_list fieldnames d =
     (if restkey d \<noteq> None \<or> list_ex (\<lambda>k. k \<notin> set fieldnames) (map fst (items d))
      then Inl ValueError
      else Inr (map (\<lambda>key. cell (map_of (items d) key)) fieldnames))"

section \<open>\<^verbatim>\<open>read_inventory\<close>\<close>

text \<open>
  \<^verbatim>\<open>row['Directory']\<close> raises \<^verbatim>\<open>KeyError\<close> when the header has no such column, and
  \<^verbatim>\<open>os.path.join\<close> raises \<^verbatim>\<open>TypeError\<close> when one of its arguments is \<^verbatim>\<open>None\<close>.
\<close>

definition row_filepath :: "rowdict \<Rightarrow> error + string" where
  "row_filepath row =
     (case map_of (items row) ''Directory'' of
        None \<Rightarrow> Inl KeyError
      | Some dir \<Rightarrow>
          (case map_of (items row) ''Filename'' of
             None \<Rightarrow> Inl KeyError
           | Some name \<Rightarrow>
               (case (dir, name) of
                  (PyStr d, PyStr n) \<Rightarrow> Inr (join d n)
                | _ \<Rightarrow> Inl TypeError)))"

fun read_rows :: "(string \<times> rowdict) list \<Rightarrow> rowdict list \<Rightarrow> error + (string \<times> rowdict) list"
where
  "read_rows result [] = Inr result"
| "read_rows result (row # rows) =
     (case row_filepath row of
        Inl e \<Rightarrow> Inl e
      | Inr filepath \<Rightarrow> read_rows (dict_set result filepath row) rows)"

text \<open>
  The argument \<open>files\<close> gives the records of the CSV file at a path, or the exception
  that opening it raises: \<^verbatim>\<open>FileNotFoundError\<close> when there is no file there.
\<close>

definition read_inventory ::
  "(string \<Rightarrow> error + string list list) \<Rightarrow> string \<Rightarrow> error + (string \<times> rowdict) list"
where
  "read_inventory files path =
     (case files path of
        Inl e \<Rightarrow> Inl e
      | Inr records \<Rightarrow> read_rows [] (DictReader records))"

section \<open>\<^verbatim>\<open>md5sum\<close>\<close>

text \<open>
  What the scan finds (\<open>tree\<close>) and what is there when a file is examined (\<open>stat\<close>) are
  two views of the file system: a file can be listed and be gone, or unreadable, when
  its turn comes. Every access that can raise gives the exception as a value: \<open>stat\<close>
  what \<^verbatim>\<open>os.path.getmtime\<close> and \<^verbatim>\<open>os.path.getsize\<close> find, \<open>content\<close> what opening the
  file and reading it gives, \<open>csv\<close> the records of the CSV file at a path, and \<open>open_w\<close>
  the exception of \<^verbatim>\<open>open(path, 'w+')\<close>, if it raises one.
\<close>

record file_stat =
  st_mtime :: int
  st_size :: nat
  content :: "error + string"

record filesystem =
  tree :: "string \<Rightarrow> entry list option"
  stat :: "string \<Rightarrow> error + file_stat"
  csv :: "string \<Rightarrow> error + string list list"
  open_w :: "string \<Rightarrow> error option"

text \<open>
  What the program takes from its environment: the working directory, the hash of a
  string in this process (it fixes the order in which a \<^verbatim>\<open>set\<close> of strings is iterated), the
  local-time rendering of a timestamp by \<^verbatim>\<open>strftime\<close>, MD5 itself, as the digest of the
  sequence of chunks given to \<^verbatim>\<open>update\<close>, and \<^verbatim>\<open>csv.reader\<close> for a delimiter and a list of
  lines: the records it yields and the exception that ends it, if one does.
\<close>

record environ =
  getcwd :: string
  str_hash :: "string \<Rightarrow> nat"
  strftime :: "int \<Rightarrow> string"
  hexdigest :: "string list \<Rightarrow> string"
  csv_reader :: "char \<Rightarrow> string list \<Rightarrow> string list list \<times> error option"

text \<open>The loop \<^verbatim>\<open>data = f.read(8192)\<close> until the data is empty.\<close>

function read_chunks :: "string \<Rightarrow> string list" where
  "read_chunks rest =
     (if take 8192 rest = [] then []
      else take 8192 rest # read_chunks (drop 8192 rest))"
  by pat_completeness auto
termination
  by (relation "measure length") auto

declare read_chunks.simps [simp del]

definition md5sum :: "environ \<Rightarrow> filesystem \<Rightarrow> string \<Rightarrow> error + string" where
  "md5sum env fs filepath =
     (case stat fs filepath of
        Inl e \<Rightarrow> Inl e
      | Inr s \<Rightarrow>
          (case content s of
             Inl e \<Rightarrow> Inl e
           | Inr data \<Rightarrow> Inr (hexdigest env (read_chunks data))))"

section \<open>The \<^verbatim>\<open>inventory\<close> subcommand\<close>

text \<open>
  What a run leaves behind: the standard output as the sequence of what was written to
  it, by \<^verbatim>\<open>print\<close> or by the CSV writer; the records written to the destination file
  (\<open>None\<close> as long as the run has not opened it); the paths on which \<^verbatim>\<open>md5sum\<close> was
  called; the counter; and the exception that ended the run, if one did.
\<close>

datatype event = Print string | Csv "string list"

record run =
  stdout :: "event list"
  destination :: "string list list option"
  hashed :: "string list"
  count :: nat
  raised :: "error option"

record inventory_args =
  path :: string
  outfile :: "string option"

definition FIELDNAMES :: "string list" where
  "FIELDNAMES =
     [''Directory'', ''Filename'', ''Extension'', ''Bytes'', ''MTime'', ''Moddate'', ''MD5'']"

definition print :: "string \<Rightarrow> string \<Rightarrow> run \<Rightarrow> run" where
  "print s end st = st\<lparr>stdout := stdout st @ [Print (s @ end)]\<rparr>"

definition print_header :: "string \<Rightarrow> run \<Rightarrow> run" where
  "print_header subcommand st =
     (let title = ''preserve.py '' @ subcommand;
          bar = replicate (length title) CHR ''=''
      in print bar [CHR 0x0A] (print title [CHR 0x0A] (print [] [CHR 0x0A] st)))"

text \<open>
  The writer's file handle \<^verbatim>\<open>fh\<close> is the destination file or \<^verbatim>\<open>sys.stdout\<close>; in the
  second case a record goes to the same stream as the output of \<^verbatim>\<open>print\<close>.
\<close>

definition write_record :: "bool \<Rightarrow> string list \<Rightarrow> run \<Rightarrow> run" where
  "write_record to_file rec st =
     (if to_file
      then st\<lparr>destination :=
                 (case destination st of None \<Rightarrow> Some [rec] | Some recs \<Rightarrow> Some (recs @ [rec]))\<rparr>
      else st\<lparr>stdout := stdout st @ [Csv rec]\<rparr>)"

definition writerow :: "bool \<Rightarrow> rowdict \<Rightarrow> run \<Rightarrow> run" where
  "writerow to_file rowdict st =
     (case dict_to_list FIELDNAMES rowdict of
        Inl e \<Rightarrow> st\<lparr>raised := Some e\<rparr>
      | Inr rec \<Rightarrow> write_record to_file rec st)"

text \<open>The first loop: write out the already completed items.\<close>

fun write_done :: "bool \<Rightarrow> run \<Rightarrow> (string \<times> rowdict) list \<Rightarrow> run" where
  "write_done to_file st [] = st"
| "write_done to_file st ((item, row) # rest) =
     (let st' = writerow to_file row st
      in if raised st' = None
         then write_done to_file (st'\<lparr>count := count st' + 1\<rparr>) rest
         else st')"

text \<open>
  The body of the second loop for one file: \<^verbatim>\<open>os.path.getmtime\<close> raises
  \<^verbatim>\<open>FileNotFoundError\<close> when the file is not there any more, \<^verbatim>\<open>md5sum\<close> raises when it
  cannot be opened or read; nothing catches either. The field \<open>st_mtime\<close> is the whole
  number \<^verbatim>\<open>int(os.path.getmtime(f))\<close>.
\<close>

definition metadata :: "environ \<Rightarrow> string \<Rightarrow> file_stat \<Rightarrow> string \<Rightarrow> rowdict" where
  "metadata env f s digest =
     (let tstamp = st_mtime s
      in \<lparr>items =
            [(''Directory'', PyStr (dirname (abspath (getcwd env) f))),
             (''Filename'', PyStr (basename f)),
             (''MTime'', PyInt tstamp),
             (''Moddate'', PyStr (strftime env tstamp)),
             (''Extension'', PyStr (upper (lstrip CHR ''.'' (splitext_ext f)))),
             (''Bytes'', PyInt (int (st_size s))),
             (''MD5'', PyStr digest)],
          restkey = None\<rparr>)"

definition check_file :: "environ \<Rightarrow> filesystem \<Rightarrow> bool \<Rightarrow> nat \<Rightarrow> run \<Rightarrow> string \<Rightarrow> run" where
  "check_file env fs to_file total' st f =
     (case stat fs f of
        Inl e \<Rightarrow> st\<lparr>raised := Some e\<rparr>
      | Inr s \<Rightarrow>
          (let st1 = st\<lparr>hashed := hashed st @ [f]\<rparr>
           in case md5sum env fs f of
                Inl e \<Rightarrow> st1\<lparr>raised := Some e\<rparr>
              | Inr digest \<Rightarrow>
                  (let st2 = writerow to_file (metadata env f s digest) st1
                   in if raised st2 = None
                      then (let st3 = st2\<lparr>count := count st2 + 1\<rparr>
                            in print (''Files checked: '' @ str_nat (count st3) @ ''/''
                                        @ str_nat total') [CHR 0x0D] st3)
                      else st2)))"

fun check_files ::
  "environ \<Rightarrow> filesystem \<Rightarrow> bool \<Rightarrow> nat \<Rightarrow> run \<Rightarrow> string list \<Rightarrow> run" where
  "check_files env fs to_file total' st [] = st"
| "check_files env fs to_file total' st (f # rest) =
     (let st' = check_file env fs to_file total' st f
      in if raised st' = None then check_files env fs to_file total' st' rest else st')"

text \<open>
  From \<^verbatim>\<open>writer.writeheader()\<close> to the end of \<^verbatim>\<open>inventory\<close>, given what the first part
  decided: the handle, the completed items and the files to check.
\<close>

definition write_inventory ::
  "environ \<Rightarrow> filesystem \<Rightarrow> bool \<Rightarrow> nat \<Rightarrow> (string \<times> rowdict) list \<Rightarrow> string list
     \<Rightarrow> run \<Rightarrow> run" where
  "write_inventory env fs to_file total' complete_list files_to_check st =
     (let st1 = write_record to_file FIELDNAMES st;
          st2 = write_done to_file (st1\<lparr>count := 0\<rparr>) complete_list
      in if raised st2 \<noteq> None then st2
         else (let st3 = check_files env fs to_file total' st2 files_to_check
               in if raised st3 \<noteq> None then st3
                  else print [] [CHR 0x0A]
                         (print ''Inventory complete!'' [CHR 0x0A]
                            (print [] [CHR 0x0A] st3))))"

text \<open>
  The \<^verbatim>\<open>try\<close> block of \<^verbatim>\<open>inventory\<close>: when the output file exists it is read and the job
  resumed, and only \<^verbatim>\<open>FileNotFoundError\<close> is caught. After it, outside the \<^verbatim>\<open>try\<close>,
  \<^verbatim>\<open>open(OUTFILE, 'w+')\<close> empties the file, or raises when the file cannot be created. In the first case
  \<^verbatim>\<open>files_to_check\<close> is a \<^verbatim>\<open>set\<close>, and the second loop takes its elements in the order of
  their hashes; every order of the elements is the order of some \<open>str_hash\<close>.
\<close>

definition resume ::
  "environ \<Rightarrow> filesystem \<Rightarrow> string \<Rightarrow> string list
     \<Rightarrow> error + (string \<times> rowdict) list \<times> string list" where
  "resume env fs OUTFILE all_files =
     (case read_inventory (csv fs) OUTFILE of
        Inl FileNotFoundError \<Rightarrow> Inr ([], all_files)
      | Inl e \<Rightarrow> Inl e
      | Inr complete_list \<Rightarrow>
          (let already_done = map fst complete_list;
               files_to_check =
                 sort_key (str_hash env)
                   (filter (\<lambda>f. f \<notin> set already_done) (remdups all_files))
           in Inr (complete_list, files_to_check)))"

definition inventory :: "environ \<Rightarrow> filesystem \<Rightarrow> inventory_args \<Rightarrow> run" where
  "inventory env fs args =
     (let st0 = print_header ''inventory''
                  \<lparr>stdout = [], destination = None, hashed = [], count = 0, raised = None\<rparr>;
          OUTFILE = map_option (abspath (getcwd env)) (outfile args);
          SEARCHROOT = abspath (getcwd env) (path args);
          all_files = list_files (tree fs) SEARCHROOT;
          st1 = print (''Checking path: '' @ SEARCHROOT) [CHR 0x0A] st0
      in case OUTFILE of
           Some out \<Rightarrow>
             (let st2 = print (''Writing inventory to file '' @ out) [CHR 0x0A] st1
              in case resume env fs out all_files of
                   Inl e \<Rightarrow> st2\<lparr>raised := Some e\<rparr>
                 | Inr (complete_list, files_to_check) \<Rightarrow>
                     (case open_w fs out of
                        Some e \<Rightarrow> st2\<lparr>raised := Some e\<rparr>
                      | None \<Rightarrow>
                          write_inventory env fs True (length all_files) complete_list
                            files_to_check (st2\<lparr>destination := Some []\<rparr>)))
         | None \<Rightarrow>
             write_inventory env fs False (length all_files) [] all_files
               (print ''Writing inventory to stdout'' [CHR 0x0A] st1))"

text \<open>
  \<^verbatim>\<open>main\<close> calls the subcommand and nothing catches: the process exits with status 0
  when the function returns and with status 1 when an exception leaves it.
\<close>

definition exit_status :: "run \<Rightarrow> nat" where
  "exit_status st = (if raised st = None then 0 else 1)"

section \<open>The \<^verbatim>\<open>compare\<close> subcommand\<close>

text \<open>
  \<^verbatim>\<open>f.readlines()\<close> cuts the text after each newline, and \<^verbatim>\<open>line.strip('\n')\<close> takes the
  newlines off both ends of a line. The text of a file is what reading it in text mode
  gives, so line ends are newlines.
\<close>

fun readlines :: "string \<Rightarrow> string list" where
  "readlines [] = []"
| "readlines (c # cs) =
     (if c = CHR 0x0A then [c] # readlines cs
      else (case readlines cs of [] \<Rightarrow> [[c]] | l # ls \<Rightarrow> (c # l) # ls))"

definition strip :: "char \<Rightarrow> string \<Rightarrow> string" where
  "strip c s = rstrip c (lstrip c s)"

text \<open>\<^verbatim>\<open>sub in s\<close> for strings.\<close>

fun contains :: "string \<Rightarrow> string \<Rightarrow> bool" where
  "contains [] sub = (sub = [])"
| "contains (c # cs) sub = (startswith (c # cs) sub \<or> contains cs sub)"

text \<open>
  The pattern \<^verbatim>\<open>([^\\]+) \[Sent\]\<close>: \<open>match_at\<close> is the group of a match that begins at the
  start of the string, the longest stretch of characters other than the backslash, at
  least one, that \<^verbatim>\<open> [Sent]\<close> follows; \<^verbatim>\<open>p.search(line)\<close> takes the first position of the
  line at which there is a match.
\<close>

definition match_at :: "string \<Rightarrow> string option" where
  "match_at s =
     map_option (\<lambda>k. take k s)
       (find (\<lambda>k. startswith (drop k s) '' [Sent]'')
          (rev [1..<Suc (length (takeWhile (\<lambda>c. c \<noteq> CHR 0x5C) s))]))"

fun search_sent :: "string \<Rightarrow> string option" where
  "search_sent [] = None"
| "search_sent (c # cs) =
     (case match_at (c # cs) of Some g \<Rightarrow> Some g | None \<Rightarrow> search_sent cs)"

fun tivoli_entries :: "string list \<Rightarrow> pyval list" where
  "tivoli_entries [] = []"
| "tivoli_entries (line # rawlines) =
     (if contains line ''Normal File-->''
      then (case search_sent line of
              Some g \<Rightarrow> PyStr g # tivoli_entries rawlines
            | None \<Rightarrow> tivoli_entries rawlines)
      else tivoli_entries rawlines)"

text \<open>
  The loop \<^verbatim>\<open>for l in reader: result.append(l[filenamecol])\<close> over a \<^verbatim>\<open>csv.DictReader\<close>.
  The reader is lazy: \<open>csv_reader\<close> gives the records that \<^verbatim>\<open>csv.reader\<close> yields for the
  lines and the exception that ends it, if one does, and that exception is raised only
  when the loop has gone through the records before it. A row without the column is a
  \<^verbatim>\<open>KeyError\<close>; a row too short to reach the column gives the entry \<^verbatim>\<open>None\<close>.
\<close>

fun column_entries :: "string \<Rightarrow> rowdict list \<Rightarrow> error + pyval list" where
  "column_entries filenamecol [] = Inr []"
| "column_entries filenamecol (l # rows) =
     (case map_of (items l) filenamecol of
        None \<Rightarrow> Inl KeyError
      | Some v \<Rightarrow>
          (case column_entries filenamecol rows of
             Inl e \<Rightarrow> Inl e
           | Inr result \<Rightarrow> Inr (v # result)))"

definition inventory_entries ::
  "(char \<Rightarrow> string list \<Rightarrow> string list list \<times> error option) \<Rightarrow> char \<Rightarrow> string
     \<Rightarrow> string list \<Rightarrow> error + pyval list" where
  "inventory_entries reader delimiter filenamecol rawlines =
     (case reader delimiter rawlines of
        ([], Some e) \<Rightarrow> Inl e
      | (records, err) \<Rightarrow>
          (case column_entries filenamecol (DictReader records) of
             Inl e \<Rightarrow> Inl e
           | Inr result \<Rightarrow> (case err of None \<Rightarrow> Inr result | Some e \<Rightarrow> Inl e)))"

record compare_args =
  first :: string
  other :: "string list"

text \<open>
  The body of the first loop up to \<^verbatim>\<open>if result:\<close>, for one file: what it prints, and the
  entries it extracts or the exception it raises. \<open>files\<close> gives the text of the file at
  a path, or the exception of \<^verbatim>\<open>open\<close>; \<^verbatim>\<open>rawlines[0]\<close> raises \<^verbatim>\<open>IndexError\<close> when the file
  is empty.
\<close>

definition parse_file ::
  "environ \<Rightarrow> (string \<Rightarrow> error + string) \<Rightarrow> string \<Rightarrow> run \<Rightarrow> run \<times> pyval list" where
  "parse_file env files filepath st =
     (case files filepath of
        Inl e \<Rightarrow> (st\<lparr>raised := Some e\<rparr>, [])
      | Inr text \<Rightarrow>
          (let rawlines = map (strip CHR 0x0A) (readlines text)
           in case rawlines of
                [] \<Rightarrow> (st\<lparr>raised := Some IndexError\<rparr>, [])
              | header # rest \<Rightarrow>
                  if header = ''IBM Tivoli Storage Manager''
                  then (print ''Parsing Tivoli output file...'' [CHR 0x0A] st,
                        tivoli_entries rawlines)
                  else if contains header ''Key'' \<or> contains header ''Filename''
                  then (let st1 = print ''Parsing DPI inventory file => '' [] st;
                            tab = CHR 0x09 \<in> set header;
                            st2 = (if tab then print ''tab delimited...'' [CHR 0x0A] st1
                                   else print ''comma delimited...'' [CHR 0x0A] st1);
                            delimiter = (if tab then CHR 0x09 else CHR '','');
                            filenamecol =
                              (if contains header ''Key'' then ''Key'' else ''Filename'')
                        in case inventory_entries (csv_reader env) delimiter filenamecol
                                  rawlines of
                             Inl e \<Rightarrow> (st2\<lparr>raised := Some e\<rparr>, [])
                           | Inr result \<Rightarrow> (st2, result))
                  else (print ''Unrecognized file type ...'' [CHR 0x0A] st, [])))"

text \<open>The first loop: \<^verbatim>\<open>filelists\<close> gets the files from which entries were extracted.\<close>

fun parse_files ::
  "environ \<Rightarrow> (string \<Rightarrow> error + string) \<Rightarrow> string list \<Rightarrow> (string \<times> pyval list) list
     \<Rightarrow> run \<Rightarrow> run \<times> (string \<times> pyval list) list" where
  "parse_files env files [] filelists st = (st, filelists)"
| "parse_files env files (filepath # rest) filelists st =
     (case parse_file env files filepath st of
        (st1, result) \<Rightarrow>
          if raised st1 \<noteq> None then (st1, filelists)
          else if result \<noteq> []
          then parse_files env files rest (dict_set filelists filepath result)
                 (print ('' > '' @ filepath @ '' : '' @ str_nat (length result) @ '' files'')
                    [CHR 0x0A] st1)
          else parse_files env files rest filelists
                 (print ('' > File '' @ filepath @ '' has not been parsed.'') [CHR 0x0A] st1))"

text \<open>
  A \<^verbatim>\<open>set\<close> is taken as the list of its elements, each once. \<^verbatim>\<open>set.intersection(*all_lists)\<close>
  raises \<^verbatim>\<open>TypeError\<close> when \<^verbatim>\<open>all_lists\<close> is empty, and \<^verbatim>\<open>sorted\<close> raises it when it has to
  compare \<^verbatim>\<open>None\<close> with a string.
\<close>

definition intersection :: "pyval list list \<Rightarrow> error + pyval list" where
  "intersection all_lists =
     (case all_lists of
        [] \<Rightarrow> Inl TypeError
      | s # rest \<Rightarrow> Inr (filter (\<lambda>x. list_all (\<lambda>t. x \<in> set t) rest) (remdups s)))"

definition difference :: "pyval list \<Rightarrow> pyval list \<Rightarrow> pyval list" where
  "difference s common = filter (\<lambda>x. x \<notin> set common) (remdups s)"

definition the_str :: "pyval \<Rightarrow> string option" where
  "the_str v = (case v of PyStr s \<Rightarrow> Some s | _ \<Rightarrow> None)"

definition sorted_py :: "pyval list \<Rightarrow> error + pyval list" where
  "sorted_py unique =
     (case those (map the_str unique) of
        Some names \<Rightarrow> Inr (map PyStr (sort names))
      | None \<Rightarrow> if length unique \<le> 1 then Inr unique else Inl TypeError)"

definition str_py :: "pyval \<Rightarrow> string" where
  "str_py v = (case v of PyStr s \<Rightarrow> s | PyInt i \<Rightarrow> str_int i | PyNone \<Rightarrow> ''None'')"

fun print_names :: "nat \<Rightarrow> pyval list \<Rightarrow> run \<Rightarrow> run" where
  "print_names fnum [] st = st"
| "print_names fnum (fname # sorted_files) st =
     print_names (Suc fnum) sorted_files
       (print ([CHR 0x09] @ ''('' @ str_nat (fnum + 1) @ '') '' @ str_py fname) [CHR 0x0A] st)"

text \<open>The second loop; the bullet of its message is the three bytes of U+2022.\<close>

fun report_files :: "pyval list \<Rightarrow> nat \<Rightarrow> (string \<times> pyval list) list \<Rightarrow> run \<Rightarrow> run" where
  "report_files common n [] st = st"
| "report_files common n ((filelist, entries) # rest) st =
     (let unique = difference entries common;
          st1 = print ('' '' @ [CHR 0xE2, CHR 0x80, CHR 0xA2] @ '' File '' @ str_nat (n + 1)
                       @ '': '' @ str_nat (length unique) @ '' values are unique to ''
                       @ filelist) [CHR 0x0A] st
      in case sorted_py unique of
           Inl e \<Rightarrow> st1\<lparr>raised := Some e\<rparr>
         | Inr sorted_files \<Rightarrow> report_files common (Suc n) rest (print_names 0 sorted_files st1))"

definition compare ::
  "environ \<Rightarrow> (string \<Rightarrow> error + string) \<Rightarrow> compare_args \<Rightarrow> run" where
  "compare env files args =
     (let st0 = print_header ''file checker''
                  \<lparr>stdout = [], destination = None, hashed = [], count = 0, raised = None\<rparr>;
          all_files = first args # other args
      in case parse_files env files all_files [] st0 of
           (st1, filelists) \<Rightarrow>
             if raised st1 \<noteq> None then st1
             else (case intersection (map snd filelists) of
                     Inl e \<Rightarrow> st1\<lparr>raised := Some e\<rparr>
                   | Inr common \<Rightarrow>
                       report_files common 0 filelists
                         (print (str_nat (length common)
                                 @ '' values are common to all the supplied files.'')
                            [CHR 0x0A] st1)))"

section \<open>What a run writes\<close>

text \<open>
  For the statements about \<^verbatim>\<open>inventory\<close>: the record that \<^verbatim>\<open>writer.writerow\<close> writes for a
  row dictionary, if it does not raise; the record that the second loop writes for a
  file, if the file is there and can be read; the records in the destination file; the
  records among what was written to standard output; and what the second loop writes to
  standard output for the files it gets through, from the counter \<open>c\<close> on.
\<close>

definition row_record :: "rowdict \<Rightarrow> string list option" where
  "row_record row = (case dict_to_list FIELDNAMES row of Inl e \<Rightarrow> None | Inr r \<Rightarrow> Some r)"

definition fresh_record :: "environ \<Rightarrow> filesystem \<Rightarrow> string \<Rightarrow> string list option" where
  "fresh_record env fs f =
     (case stat fs f of
        Inl e \<Rightarrow> None
      | Inr s \<Rightarrow>
          (case md5sum env fs f of
             Inl e \<Rightarrow> None
           | Inr digest \<Rightarrow> row_record (metadata env f s digest)))"

definition dest_records :: "run \<Rightarrow> string list list" where
  "dest_records st = (case destination st of None \<Rightarrow> [] | Some recs \<Rightarrow> recs)"

fun csv_events :: "event list \<Rightarrow> string list list" where
  "csv_events [] = []"
| "csv_events (Print s # evs) = csv_events evs"
| "csv_events (Csv r # evs) = r # csv_events evs"

fun progress :: "bool \<Rightarrow> nat \<Rightarrow> nat \<Rightarrow> string list list \<Rightarrow> event list" where
  "progress to_file c n [] = []"
| "progress to_file c n (r # rs) =
     (if to_file then [] else [Csv r])
     @ Print (''Files checked: '' @ str_nat (Suc c) @ ''/'' @ str_nat n @ [CHR 0x0D])
     # progress to_file (Suc c) n rs"

text \<open>
  What \<^verbatim>\<open>inventory\<close> prints before the header row and after the second loop, and what
  its first part decides, up to the opening of the destination: the completed items and
  the files to check, or the exception that ends the run there.
\<close>

definition banner :: "environ \<Rightarrow> inventory_args \<Rightarrow> event list" where
  "banner env args =
     [Print [CHR 0x0A],
      Print (''preserve.py inventory'' @ [CHR 0x0A]),
      Print (''====================='' @ [CHR 0x0A]),
      Print (''Checking path: '' @ abspath (getcwd env) (path args) @ [CHR 0x0A]),
      Print ((case outfile args of
                None \<Rightarrow> ''Writing inventory to stdout''
              | Some out \<Rightarrow> ''Writing inventory to file '' @ abspath (getcwd env) out)
             @ [CHR 0x0A])]"

definition trailer :: "event list" where
  "trailer = [Print [CHR 0x0A], Print (''Inventory complete!'' @ [CHR 0x0A]), Print [CHR 0x0A]]"

definition plan ::
  "environ \<Rightarrow> filesystem \<Rightarrow> inventory_args \<Rightarrow> error + (string \<times> rowdict) list \<times> string list"
where
  "plan env fs args =
     (let all_files = list_files (tree fs) (abspath (getcwd env) (path args))
      in case outfile args of
           None \<Rightarrow> Inr ([], all_files)
         | Some out \<Rightarrow>
             (case resume env fs (abspath (getcwd env) out) all_files of
                Inl e \<Rightarrow> Inl e
              | Inr p \<Rightarrow>
                  (case open_w fs (abspath (getcwd env) out) of
                     Some e \<Rightarrow> Inl e
                   | None \<Rightarrow> Inr p)))"

text \<open>
  The key under which \<^verbatim>\<open>read_inventory\<close> files a record of a CSV file whose header is
  \<^verbatim>\<open>FIELDNAMES\<close>: the first two columns joined.
\<close>

definition record_key :: "string list \<Rightarrow> string" where
  "record_key rec = join (rec ! 0) (rec ! 1)"

text \<open>
  For the statements about \<^verbatim>\<open>compare\<close>: the state in which its first loop starts, and the
  report of the second loop written from the sets: for each file of \<^verbatim>\<open>filelists\<close> the line
  with the number of its entries outside \<open>C\<close>, then those entries in ascending order,
  numbered from 1.
\<close>

definition compare_start :: run where
  "compare_start =
     print_header ''file checker''
       \<lparr>stdout = [], destination = None, hashed = [], count = 0, raised = None\<rparr>"

fun numbered :: "nat \<Rightarrow> string list \<Rightarrow> event list" where
  "numbered i [] = []"
| "numbered i (s # ss) =
     Print ([CHR 0x09] @ ''('' @ str_nat (i + 1) @ '') '' @ s @ [CHR 0x0A]) # numbered (Suc i) ss"

fun unique_report :: "pyval set \<Rightarrow> nat \<Rightarrow> (string \<times> pyval list) list \<Rightarrow> event list" where
  "unique_report C n [] = []"
| "unique_report C n ((filelist, entries) # rest) =
     Print ('' '' @ [CHR 0xE2, CHR 0x80, CHR 0xA2] @ '' File '' @ str_nat (n + 1)
            @ '': '' @ str_nat (card (set entries - C)) @ '' values are unique to ''
            @ filelist @ [CHR 0x0A])
     # numbered 0 (sorted_list_of_set (str_py ` (set entries - C)))
     @ unique_report C (Suc n) rest"

section \<open>A small file system for the examples\<close>

text \<open>
  The directory \<^verbatim>\<open>/data\<close> holds \<^verbatim>\<open>a.txt\<close>, the hidden file \<^verbatim>\<open>.hidden\<close>, the directory
  \<^verbatim>\<open>sub\<close> with \<^verbatim>\<open>b.TXT\<close> and the hidden directory \<^verbatim>\<open>.git\<close> with \<^verbatim>\<open>config\<close>; \<^verbatim>\<open>/empty\<close> is an
  empty directory. The file \<^verbatim>\<open>/home/u/out.csv\<close> is an earlier inventory that records
  \<^verbatim>\<open>/data/a.txt\<close> and a file \<^verbatim>\<open>/data/gone.txt\<close> that is on disk no longer;
  \<^verbatim>\<open>/home/u/git.csv\<close> is an earlier inventory of \<^verbatim>\<open>/data/.git\<close>; \<^verbatim>\<open>/home/u/twice.csv\<close> has
  two rows for \<^verbatim>\<open>/data/a.txt\<close>. Nothing is at \<^verbatim>\<open>/nodata\<close>, so no file can be created below
  it.
\<close>

text \<open>The lines of the examples have no quotes: a record is its line cut at the delimiter.\<close>

fun split_on :: "char \<Rightarrow> string \<Rightarrow> string list" where
  "split_on d [] = []"
| "split_on d (c # cs) =
     (if c = d then [] # (case split_on d cs of [] \<Rightarrow> [[]] | fs \<Rightarrow> fs)
      else (case split_on d cs of [] \<Rightarrow> [[c]] | f # fs \<Rightarrow> (c # f) # fs))"

definition demo_env :: environ where
  "demo_env =
     \<lparr>getcwd = ''/home/u'',
      str_hash = length,
      strftime = (\<lambda>t. ''1970-01-01T00:00:0'' @ str_int t),
      hexdigest = concat,
      csv_reader = (\<lambda>delimiter rawlines. (map (split_on delimiter) rawlines, None))\<rparr>"

definition demo_tree :: "string \<Rightarrow> entry list option" where
  "demo_tree p =
     (if p = ''/data''
      then Some [File ''a.txt'', File ''.hidden'', Dir ''sub'' [File ''b.TXT''],
                 Dir ''.git'' [File ''config'']]
      else if p = ''/empty'' then Some []
      else None)"

definition demo_stat :: "string \<Rightarrow> error + file_stat" where
  "demo_stat p =
     (if p = ''/data/a.txt''
      then Inr \<lparr>st_mtime = 5, st_size = 10, content = Inr ''0123456789''\<rparr>
      else if p = ''/data/sub/b.TXT''
      then Inr \<lparr>st_mtime = 7, st_size = 2, content = Inr ''bb''\<rparr>
      else Inl FileNotFoundError)"

definition demo_csv :: "string \<Rightarrow> error + string list list" where
  "demo_csv p =
     (if p = ''/home/u/out.csv''
      then Inr [FIELDNAMES,
                [''/data'', ''gone.txt'', ''TXT'', ''1'', ''2'', ''1970-01-01T00:00:02'', ''g''],
                [''/data'', ''a.txt'', ''TXT'', ''10'', ''5'', ''1970-01-01T00:00:05'', ''old'']]
      else if p = ''/home/u/git.csv''
      then Inr [FIELDNAMES,
                [''/data/.git'', ''config'', [], ''3'', ''1'', ''1970-01-01T00:00:01'', ''c'']]
      else if p = ''/home/u/twice.csv''
      then Inr [[''Directory'', ''Filename'', ''MD5''],
                [''/data'', ''a.txt'', ''first''],
                [''/data/sub'', ''b.TXT'', ''other''],
                [''/data'', ''a.txt'', ''second'']]
      else Inl FileNotFoundError)"

definition demo_open_w :: "string \<Rightarrow> error option" where
  "demo_open_w p = (if startswith p ''/nodata/'' then Some FileNotFoundError else None)"

definition demo_fs :: filesystem where
  "demo_fs = \<lparr>tree = demo_tree, stat = demo_stat, csv = demo_csv, open_w = demo_open_w\<rparr>"

text \<open>The same, but \<^verbatim>\<open>/data/a.txt\<close> is gone when the second loop comes to it.\<close>

definition demo_race_fs :: filesystem where
  "demo_race_fs =
     \<lparr>tree = demo_tree,
      stat = (\<lambda>p. if p = ''/data/a.txt'' then Inl FileNotFoundError else demo_stat p),
      csv = demo_csv,
      open_w = demo_open_w\<rparr>"

text \<open>
  Listings for \<^verbatim>\<open>compare\<close>: \<^verbatim>\<open>f1.csv\<close> lists x, y and z, \<^verbatim>\<open>f2.csv\<close> (tab delimited) lists y, z
  and w, \<^verbatim>\<open>head.csv\<close> has a header and no row, the second row of \<^verbatim>\<open>short.csv\<close> does not reach
  the column \<^verbatim>\<open>Filename\<close>, and \<^verbatim>\<open>notes.txt\<close> is no listing.
\<close>

definition demo_text :: "string \<Rightarrow> error + string" where
  "demo_text p =
     (if p = ''f1.csv''
      then Inr (''Filename,Size'' @ [CHR 0x0A] @ ''x,1'' @ [CHR 0x0A] @ ''y,2'' @ [CHR 0x0A]
                @ ''z,3'' @ [CHR 0x0A])
      else if p = ''f2.csv''
      then Inr (''Size'' @ [CHR 0x09] @ ''Key'' @ [CHR 0x0A] @ ''1'' @ [CHR 0x09] @ ''y''
                @ [CHR 0x0A] @ ''2'' @ [CHR 0x09] @ ''z'' @ [CHR 0x0A] @ ''3'' @ [CHR 0x09]
                @ ''w'' @ [CHR 0x0A])
      else if p = ''head.csv'' then Inr (''Filename,Size'' @ [CHR 0x0A])
      else if p = ''short.csv''
      then Inr (''Size,Filename'' @ [CHR 0x0A] @ ''1,b'' @ [CHR 0x0A] @ ''2'' @ [CHR 0x0A])
      else if p = ''notes.txt'' then Inr (''hello'' @ [CHR 0x0A])
      else Inl FileNotFoundError)"

section \<open>Hidden names are pruned\<close>




section \<open>Dictionaries and \<^verbatim>\<open>read_inventory\<close>\<close>

lemma map_of_dict_set: "map_of (dict_set d k v) = (map_of d)(k \<mapsto> v)"
  by (induction d k v rule: dict_set.induct) (auto simp: fun_eq_iff)

lemma keys_dict_set:
  "map fst (dict_set d k v) = (if k \<in> set (map fst d) then map fst d else map fst d @ [k])"
  by (induction d k v rule: dict_set.induct) auto

lemma distinct_dict_set: "distinct (map fst d) \<Longrightarrow> distinct (map fst (dict_set d k v))"
  by (simp add: keys_dict_set)

lemma find_snoc:
  "find P (xs @ [x]) =
     (case find P xs of None \<Rightarrow> (if P x then Some x else None) | Some y \<Rightarrow> Some y)"
  by (induction xs) auto

lemma row_filepath_Inr:
  "row_filepath row = Inr k \<longleftrightarrow>
     (\<exists>d n. map_of (items row) ''Directory'' = Some (PyStr d)
          \<and> map_of (items row) ''Filename'' = Some (PyStr n) \<and> k = join d n)"
  by (auto simp: row_filepath_def split: option.splits pyval.splits)

text \<open>
  The loop of \<^verbatim>\<open>read_inventory\<close>, from any dictionary \<open>acc\<close>: a key is bound to the last
  row that has it, and to what \<open>acc\<close> held when no row has it.
\<close>

lemma read_rows_ok:
  assumes "\<forall>row \<in> set rows. \<exists>p. row_filepath row = Inr p"
  shows "\<exists>res. read_rows acc rows = Inr res
     \<and> (distinct (map fst acc) \<longrightarrow> distinct (map fst res))
     \<and> (\<forall>k. map_of res k =
            (case find (\<lambda>r. row_filepath r = Inr k) (rev rows) of
               Some r \<Rightarrow> Some r | None \<Rightarrow> map_of acc k))"
  using assms
proof (induction rows arbitrary: acc)
  case Nil
  then show ?case by simp
next
  case (Cons row rows)
  then obtain p where p: "row_filepath row = Inr p" by auto
  from Cons.prems have rest: "\<forall>row \<in> set rows. \<exists>p. row_filepath row = Inr p" by simp
  from Cons.IH [OF rest, of "dict_set acc p row"]
  obtain res where res: "read_rows (dict_set acc p row) rows = Inr res"
    and d: "distinct (map fst (dict_set acc p row)) \<longrightarrow> distinct (map fst res)"
    and m: "\<forall>k. map_of res k =
            (case find (\<lambda>r. row_filepath r = Inr k) (rev rows) of
               Some r \<Rightarrow> Some r | None \<Rightarrow> map_of (dict_set acc p row) k)"
    by blast
  show ?case
    using p res d m
    by (auto simp: distinct_dict_set find_snoc map_of_dict_set split: option.splits)
qed

text \<open>
  C9. For an inventory file in which every row has a string in the columns
  \<^verbatim>\<open>Directory\<close> and \<^verbatim>\<open>Filename\<close>, \<^verbatim>\<open>read_inventory\<close> returns a dictionary whose keys are
  distinct and in which a key \<open>k\<close> is bound exactly when some row has
  \<^verbatim>\<open>os.path.join(Directory, Filename)\<close> equal to \<open>k\<close>, and then to the last such row of
  the file: an earlier row with the same key is overwritten.
\<close>

theorem read_inventory_last_row:
  assumes present: "files p = Inr records"
    and wf: "\<forall>row \<in> set (DictReader records).
               \<exists>d n. map_of (items row) ''Directory'' = Some (PyStr d)
                    \<and> map_of (items row) ''Filename'' = Some (PyStr n)"
  shows "\<exists>result. read_inventory files p = Inr result
           \<and> distinct (map fst result)
           \<and> (\<forall>k. map_of result k =
                  find (\<lambda>row. \<exists>d n. map_of (items row) ''Directory'' = Some (PyStr d)
                                  \<and> map_of (items row) ''Filename'' = Some (PyStr n)
                                  \<and> k = join d n)
                       (rev (DictReader records)))"
proof -
  from wf have "\<forall>row \<in> set (DictReader records). \<exists>k. row_filepath row = Inr k"
    by (simp add: row_filepath_Inr) blast
  from read_rows_ok [OF this, of "[]"]
  obtain res where res: "read_rows [] (DictReader records) = Inr res"
    and d: "distinct (map fst res)"
    and m: "\<forall>k. map_of res k =
              (case find (\<lambda>r. row_filepath r = Inr k) (rev (DictReader records)) of
                 Some r \<Rightarrow> Some r | None \<Rightarrow> map_of [] k)"
    by auto
  have "map_of res k =
          find (\<lambda>row. \<exists>d n. map_of (items row) ''Directory'' = Some (PyStr d)
                          \<and> map_of (items row) ''Filename'' = Some (PyStr n)
                          \<and> k = join d n)
               (rev (DictReader records))" for k
    using m [rule_format, of k] by (simp add: row_filepath_Inr split: option.splits)
  with res d present show ?thesis
    by (simp add: read_inventory_def)
qed

theorem read_inventory_last_row_witness:
  "\<exists>result. read_inventory demo_csv ''/home/u/twice.csv'' = Inr result
     \<and> distinct (map fst result)
     \<and> map_of result ''/data/a.txt'' =
         Some \<lparr>items = [(''Directory'', PyStr ''/data''), (''Filename'', PyStr ''a.txt''),
                        (''MD5'', PyStr ''second'')],
               restkey = None\<rparr>"
proof -
  let ?records = "[[''Directory'', ''Filename'', ''MD5''],
                   [''/data'', ''a.txt'', ''first''],
                   [''/data/sub'', ''b.TXT'', ''other''],
                   [''/data'', ''a.txt'', ''second'']]"
  have present: "demo_csv ''/home/u/twice.csv'' = Inr ?records"
    by (simp add: demo_csv_def)
  have rows: "DictReader ?records =
      [\<lparr>items = [(''Directory'', PyStr ''/data''), (''Filename'', PyStr ''a.txt''),
                 (''MD5'', PyStr ''first'')], restkey = None\<rparr>,
       \<lparr>items = [(''Directory'', PyStr ''/data/sub''), (''Filename'', PyStr ''b.TXT''),
                 (''MD5'', PyStr ''other'')], restkey = None\<rparr>,
       \<lparr>items = [(''Directory'', PyStr ''/data''), (''Filename'', PyStr ''a.txt''),
                 (''MD5'', PyStr ''second'')], restkey = None\<rparr>]"
    by code_simp
  have wf: "\<forall>row \<in> set (DictReader ?records).
               \<exists>d n. map_of (items row) ''Directory'' = Some (PyStr d)
                    \<and> map_of (items row) ''Filename'' = Some (PyStr n)"
    unfolding rows by simp
  from read_inventory_last_row [of demo_csv "''/home/u/twice.csv''" ?records, OF present wf]
  obtain result where r: "read_inventory demo_csv ''/home/u/twice.csv'' = Inr result"
    and d: "distinct (map fst result)"
    and m: "\<forall>k. map_of result k =
                  find (\<lambda>row. \<exists>d n. map_of (items row) ''Directory'' = Some (PyStr d)
                                  \<and> map_of (items row) ''Filename'' = Some (PyStr n)
                                  \<and> k = join d n)
                       (rev (DictReader ?records))"
    by blast
  from m [rule_format, of "''/data/a.txt''"]
  have "map_of result ''/data/a.txt'' =
         Some \<lparr>items = [(''Directory'', PyStr ''/data''), (''Filename'', PyStr ''a.txt''),
                        (''MD5'', PyStr ''second'')],
               restkey = None\<rparr>"
    unfolding rows by (simp add: join_def startswith_def endswith_def)
  with r d show ?thesis by blast
qed

section \<open>The two loops of \<^verbatim>\<open>inventory\<close>\<close>

lemma print_fields [simp]:
  "stdout (print s e st) = stdout st @ [Print (s @ e)]"
  "destination (print s e st) = destination st"
  "hashed (print s e st) = hashed st"
  "count (print s e st) = count st"
  "raised (print s e st) = raised st"
  by (simp_all add: print_def)

lemma write_record_fields [simp]:
  "raised (write_record tf r st) = raised st"
  "hashed (write_record tf r st) = hashed st"
  "count (write_record tf r st) = count st"
  "destination (write_record tf r st) =
     (if tf then Some (dest_records st @ [r]) else destination st)"
  "stdout (write_record tf r st) = (if tf then stdout st else stdout st @ [Csv r])"
  by (simp_all add: write_record_def dest_records_def split: option.splits)

lemma dest_records_simps [simp]:
  "dest_records (print s e st) = dest_records st"
  "dest_records (write_record tf r st) = (if tf then dest_records st @ [r] else dest_records st)"
  "dest_records (st\<lparr>count := c\<rparr>) = dest_records st"
  "dest_records (st\<lparr>hashed := h\<rparr>) = dest_records st"
  "dest_records (st\<lparr>raised := x\<rparr>) = dest_records st"
  "dest_records (st\<lparr>destination := Some recs\<rparr>) = recs"
  by (simp_all add: dest_records_def)

lemma writerow_ok:
  "row_record row = Some r \<Longrightarrow> writerow tf row st = write_record tf r st"
  by (simp add: writerow_def row_record_def split: sum.splits)

lemma writerow_fail:
  "row_record row = None \<Longrightarrow> \<exists>e. writerow tf row st = st\<lparr>raised := Some e\<rparr>"
  by (auto simp: writerow_def row_record_def split: sum.splits)

text \<open>The first loop.\<close>

lemma write_done_ok:
  assumes "those (map (\<lambda>(k, row). row_record row) complete_list) = Some recs"
    and "raised st = None"
  shows "raised (write_done tf st complete_list) = None
       \<and> hashed (write_done tf st complete_list) = hashed st
       \<and> count (write_done tf st complete_list) = count st + length complete_list
       \<and> dest_records (write_done tf st complete_list)
           = (if tf then dest_records st @ recs else dest_records st)
       \<and> stdout (write_done tf st complete_list)
           = (if tf then stdout st else stdout st @ map Csv recs)
       \<and> (destination st \<noteq> None \<longrightarrow> destination (write_done tf st complete_list) \<noteq> None)
       \<and> (\<not> tf \<longrightarrow> destination (write_done tf st complete_list) = destination st)"
  using assms
proof (induction complete_list arbitrary: st recs)
  case Nil
  then show ?case by simp
next
  case (Cons kr rest)
  obtain k row where kr: "kr = (k, row)" by (cases kr)
  from Cons.prems(1) kr obtain r rs where r: "row_record row = Some r"
    and rs: "those (map (\<lambda>(k, row). row_record row) rest) = Some rs"
    and recs: "recs = r # rs"
    by (auto split: option.splits)
  let ?st' = "(write_record tf r st)\<lparr>count := count st + 1\<rparr>"
  have st': "raised ?st' = None" using Cons.prems(2) by simp
  from Cons.IH [OF rs st'] show ?case
    using Cons.prems(2) by (cases tf) (simp_all add: kr writerow_ok [OF r] recs)
qed


text \<open>The second loop.\<close>

lemma check_file_ok:
  assumes "fresh_record env fs f = Some r" and "raised st = None"
  shows "raised (check_file env fs tf n st f) = None
       \<and> hashed (check_file env fs tf n st f) = hashed st @ [f]
       \<and> count (check_file env fs tf n st f) = Suc (count st)
       \<and> dest_records (check_file env fs tf n st f)
           = (if tf then dest_records st @ [r] else dest_records st)
       \<and> stdout (check_file env fs tf n st f) = stdout st @ progress tf (count st) n [r]
       \<and> (destination st \<noteq> None \<longrightarrow> destination (check_file env fs tf n st f) \<noteq> None)
       \<and> (\<not> tf \<longrightarrow> destination (check_file env fs tf n st f) = destination st)"
  using assms
  by (auto simp: fresh_record_def check_file_def Let_def writerow_ok
           split: option.splits sum.splits)

lemma check_file_fail:
  assumes "stat fs f = Inl e \<or> (\<exists>s. stat fs f = Inr s \<and> content s = Inl e)"
    and "raised st = None"
  shows "raised (check_file env fs tf n st f) = Some e
       \<and> count (check_file env fs tf n st f) = count st
       \<and> destination (check_file env fs tf n st f) = destination st
       \<and> stdout (check_file env fs tf n st f) = stdout st
       \<and> hashed (check_file env fs tf n st f)
           = hashed st @ (case stat fs f of Inl x \<Rightarrow> [] | Inr s \<Rightarrow> [f])"
  using assms
  by (auto simp: check_file_def Let_def md5sum_def split: sum.splits)

lemma check_files_append:
  "raised st = None \<Longrightarrow>
   check_files env fs tf n st (xs @ ys) =
     (let st' = check_files env fs tf n st xs
      in if raised st' = None then check_files env fs tf n st' ys else st')"
  by (induction xs arbitrary: st) (auto simp: Let_def)

lemma progress_append:
  "progress tf c n (rs @ rs') = progress tf c n rs @ progress tf (c + length rs) n rs'"
  by (induction rs arbitrary: c) auto

lemma check_files_ok:
  assumes "those (map (fresh_record env fs) files) = Some recs" and "raised st = None"
  shows "raised (check_files env fs tf n st files) = None
       \<and> hashed (check_files env fs tf n st files) = hashed st @ files
       \<and> count (check_files env fs tf n st files) = count st + length files
       \<and> dest_records (check_files env fs tf n st files)
           = (if tf then dest_records st @ recs else dest_records st)
       \<and> stdout (check_files env fs tf n st files) = stdout st @ progress tf (count st) n recs
       \<and> (destination st \<noteq> None \<longrightarrow> destination (check_files env fs tf n st files) \<noteq> None)
       \<and> (\<not> tf \<longrightarrow> destination (check_files env fs tf n st files) = destination st)"
  using assms
proof (induction files arbitrary: st recs)
  case Nil
  then show ?case by simp
next
  case (Cons f rest)
  from Cons.prems(1) obtain r rs where r: "fresh_record env fs f = Some r"
    and rs: "those (map (fresh_record env fs) rest) = Some rs"
    and recs: "recs = r # rs"
    by (auto split: option.splits)
  note one = check_file_ok [OF r Cons.prems(2), of tf n]
  then have ok: "raised (check_file env fs tf n st f) = None" by simp
  from Cons.IH [OF rs ok] one show ?case
    by (cases tf) (simp_all add: recs Let_def)
qed

lemma csv_events_append [simp]: "csv_events (xs @ ys) = csv_events xs @ csv_events ys"
  by (induction xs rule: csv_events.induct) auto

lemma csv_events_map_Csv [simp]: "csv_events (map Csv recs) = recs"
  by (induction recs) auto

lemma csv_events_progress [simp]:
  "csv_events (progress tf c n recs) = (if tf then [] else recs)"
  by (induction recs arbitrary: c) auto

lemma write_inventory_ok:
  assumes cl: "those (map (\<lambda>(k, row). row_record row) complete_list) = Some copied"
    and ftc: "those (map (fresh_record env fs) files_to_check) = Some fresh"
    and st: "raised st = None"
  shows "raised (write_inventory env fs tf n complete_list files_to_check st) = None
       \<and> hashed (write_inventory env fs tf n complete_list files_to_check st)
           = hashed st @ files_to_check
       \<and> dest_records (write_inventory env fs tf n complete_list files_to_check st)
           = (if tf then dest_records st @ FIELDNAMES # copied @ fresh else dest_records st)
       \<and> stdout (write_inventory env fs tf n complete_list files_to_check st)
           = stdout st @ (if tf then [] else Csv FIELDNAMES # map Csv copied)
             @ progress tf (length complete_list) n fresh @ trailer
       \<and> (destination st \<noteq> None \<longrightarrow>
            destination (write_inventory env fs tf n complete_list files_to_check st) \<noteq> None)
       \<and> (\<not> tf \<longrightarrow> destination (write_inventory env fs tf n complete_list files_to_check st)
                     = destination st)"
proof -
  let ?st1 = "(write_record tf FIELDNAMES st)\<lparr>count := 0\<rparr>"
  have st1: "raised ?st1 = None" using st by simp
  note d = write_done_ok [OF cl st1, of tf]
  let ?st2 = "write_done tf ?st1 complete_list"
  from d have st2: "raised ?st2 = None" by simp
  note c = check_files_ok [OF ftc st2, of tf n]
  show ?thesis
    using d c st
    by (cases tf) (simp_all add: write_inventory_def Let_def trailer_def)
qed

lemma write_inventory_stops:
  assumes cl: "those (map (\<lambda>(k, row). row_record row) complete_list) = Some copied"
    and pre: "those (map (fresh_record env fs) pre) = Some recs"
    and f: "stat fs f = Inl e \<or> (\<exists>s. stat fs f = Inr s \<and> content s = Inl e)"
    and st: "raised st = None"
  shows "raised (write_inventory env fs tf n complete_list (pre @ f # post) st) = Some e
       \<and> hashed (write_inventory env fs tf n complete_list (pre @ f # post) st)
           = hashed st @ pre @ (case stat fs f of Inl x \<Rightarrow> [] | Inr s \<Rightarrow> [f])
       \<and> dest_records (write_inventory env fs tf n complete_list (pre @ f # post) st)
           = (if tf then dest_records st @ FIELDNAMES # copied @ recs else dest_records st)
       \<and> stdout (write_inventory env fs tf n complete_list (pre @ f # post) st)
           = stdout st @ (if tf then [] else Csv FIELDNAMES # map Csv copied)
             @ progress tf (length complete_list) n recs
       \<and> (destination st \<noteq> None \<longrightarrow>
            destination (write_inventory env fs tf n complete_list (pre @ f # post) st)
              \<noteq> None)
       \<and> (\<not> tf \<longrightarrow>
            destination (write_inventory env fs tf n complete_list (pre @ f # post) st)
              = destination st)"
proof -
  let ?st1 = "(write_record tf FIELDNAMES st)\<lparr>count := 0\<rparr>"
  have st1: "raised ?st1 = None" using st by simp
  note d = write_done_ok [OF cl st1, of tf]
  let ?st2 = "write_done tf ?st1 complete_list"
  from d have st2: "raised ?st2 = None" by simp
  note c = check_files_ok [OF pre st2, of tf n]
  let ?st3 = "check_files env fs tf n ?st2 pre"
  from c have st3: "raised ?st3 = None" by simp
  note x = check_file_fail [OF f st3, of env tf n]
  from x have r: "raised (check_file env fs tf n ?st3 f) \<noteq> None" by simp
  have "check_files env fs tf n ?st2 (pre @ f # post) = check_files env fs tf n ?st3 (f # post)"
    using st2 st3 by (simp add: check_files_append Let_def)
  also have "\<dots> = check_file env fs tf n ?st3 f"
    using r by (auto simp: Let_def)
  finally have loop:
    "check_files env fs tf n ?st2 (pre @ f # post) = check_file env fs tf n ?st3 f" .
  have dr: "dest_records (check_file env fs tf n ?st3 f) = dest_records ?st3"
    using x by (simp add: dest_records_def)
  have eq: "write_inventory env fs tf n complete_list (pre @ f # post) st
              = check_file env fs tf n ?st3 f"
    using r st2 by (auto simp: write_inventory_def Let_def loop)
  show ?thesis
    unfolding eq using d c x st dr
    by (cases tf) simp_all
qed

lemma inventory_plan:
  "inventory env fs args =
     (case plan env fs args of
        Inl e \<Rightarrow> \<lparr>stdout = banner env args, destination = None, hashed = [], count = 0,
                  raised = Some e\<rparr>
      | Inr (complete_list, files_to_check) \<Rightarrow>
          write_inventory env fs (outfile args \<noteq> None)
            (length (list_files (tree fs) (abspath (getcwd env) (path args))))
            complete_list files_to_check
            \<lparr>stdout = banner env args,
             destination = (if outfile args = None then None else Some []),
             hashed = [], count = 0, raised = None\<rparr>)"
  by (cases "outfile args")
     (auto simp: inventory_def plan_def Let_def banner_def print_header_def print_def
           split: sum.splits prod.splits option.splits)

lemma inventory_completes:
  assumes p: "plan env fs args = Inr (complete_list, files_to_check)"
    and cl: "those (map (\<lambda>(k, row). row_record row) complete_list) = Some copied"
    and ftc: "those (map (fresh_record env fs) files_to_check) = Some fresh"
  shows "raised (inventory env fs args) = None
       \<and> hashed (inventory env fs args) = files_to_check
       \<and> destination (inventory env fs args)
           = (if outfile args = None then None else Some (FIELDNAMES # copied @ fresh))
       \<and> stdout (inventory env fs args)
           = banner env args
             @ (if outfile args = None then Csv FIELDNAMES # map Csv copied else [])
             @ progress (outfile args \<noteq> None) (length complete_list)
                 (length (list_files (tree fs) (abspath (getcwd env) (path args)))) fresh
             @ trailer"
proof -
  let ?st = "\<lparr>stdout = banner env args,
              destination = (if outfile args = None then None else Some []),
              hashed = [], count = 0, raised = None\<rparr>"
  have st: "raised ?st = None" by simp
  note w = write_inventory_ok [OF cl ftc st, of "outfile args \<noteq> None"
             "length (list_files (tree fs) (abspath (getcwd env) (path args)))"]
  show ?thesis
  proof (cases "outfile args")
    case None
    with w show ?thesis by (simp add: inventory_plan p)
  next
    case (Some out)
    with w have "dest_records (inventory env fs args) = FIELDNAMES # copied @ fresh"
      and "destination (inventory env fs args) \<noteq> None"
      by (simp_all add: inventory_plan p dest_records_def)
    then have "destination (inventory env fs args) = Some (FIELDNAMES # copied @ fresh)"
      by (auto simp: dest_records_def)
    with w Some show ?thesis by (simp add: inventory_plan p)
  qed
qed

lemma inventory_stops:
  assumes p: "plan env fs args = Inr (complete_list, pre @ f # post)"
    and cl: "those (map (\<lambda>(k, row). row_record row) complete_list) = Some copied"
    and pre: "those (map (fresh_record env fs) pre) = Some recs"
    and f: "stat fs f = Inl e \<or> (\<exists>s. stat fs f = Inr s \<and> content s = Inl e)"
  shows "raised (inventory env fs args) = Some e
       \<and> hashed (inventory env fs args)
           = pre @ (case stat fs f of Inl x \<Rightarrow> [] | Inr s \<Rightarrow> [f])
       \<and> destination (inventory env fs args)
           = (if outfile args = None then None else Some (FIELDNAMES # copied @ recs))
       \<and> stdout (inventory env fs args)
           = banner env args
             @ (if outfile args = None then Csv FIELDNAMES # map Csv copied else [])
             @ progress (outfile args \<noteq> None) (length complete_list)
                 (length (list_files (tree fs) (abspath (getcwd env) (path args)))) recs"
proof -
  let ?st = "\<lparr>stdout = banner env args,
              destination = (if outfile args = None then None else Some []),
              hashed = [], count = 0, raised = None\<rparr>"
  have st: "raised ?st = None" by simp
  note w = write_inventory_stops [OF cl pre f st, of "outfile args \<noteq> None"
             "length (list_files (tree fs) (abspath (getcwd env) (path args)))" post]
  show ?thesis
  proof (cases "outfile args")
    case None
    with w show ?thesis by (simp add: inventory_plan p)
  next
    case (Some out)
    with w have "destination (inventory env fs args) \<noteq> None"
      by (simp add: inventory_plan p)
    moreover from w Some have "dest_records (inventory env fs args) = FIELDNAMES # copied @ recs"
      by (simp add: inventory_plan p dest_records_def)
    ultimately have "destination (inventory env fs args) = Some (FIELDNAMES # copied @ recs)"
      by (auto simp: dest_records_def)
    with w Some show ?thesis by (simp add: inventory_plan p)
  qed
qed

lemma csv_events_banner [simp]: "csv_events (banner env args) = []"
  by (simp add: banner_def)

lemma csv_events_trailer [simp]: "csv_events trailer = []"
  by (simp add: trailer_def)

lemma check_file_hashed_subset:
  "set (hashed (check_file env fs tf n st f)) \<subseteq> set (hashed st) \<union> {f}"
  by (auto simp: check_file_def Let_def writerow_def write_record_def print_def
           split: sum.splits if_splits)

lemma check_files_hashed_subset:
  "set (hashed (check_files env fs tf n st files)) \<subseteq> set (hashed st) \<union> set files"
proof (induction files arbitrary: st)
  case Nil
  then show ?case by simp
next
  case (Cons f files)
  from check_file_hashed_subset [of env fs tf n st f]
       Cons.IH [of "check_file env fs tf n st f"]
  show ?case by (auto simp: Let_def)
qed

lemma write_done_hashed: "hashed (write_done tf st complete_list) = hashed st"
  by (induction complete_list arbitrary: st)
     (auto simp: Let_def writerow_def write_record_def split: sum.splits)

lemma write_inventory_hashed_subset:
  "set (hashed (write_inventory env fs tf n complete_list files_to_check st))
     \<subseteq> set (hashed st) \<union> set files_to_check"
  using check_files_hashed_subset
          [of env fs tf n "write_done tf ((write_record tf FIELDNAMES st)\<lparr>count := 0\<rparr>)
                             complete_list" files_to_check]
  by (auto simp: write_inventory_def Let_def write_done_hashed)

lemma plan_files:
  assumes "plan env fs args = Inr (complete_list, files_to_check)"
  shows "set files_to_check
           \<subseteq> set (list_files (tree fs) (abspath (getcwd env) (path args)))"
  using assms
  by (auto simp: plan_def resume_def Let_def split: option.splits sum.splits error.splits)

lemma inventory_hashed_subset:
  "set (hashed (inventory env fs args))
     \<subseteq> set (list_files (tree fs) (abspath (getcwd env) (path args)))"
proof (cases "plan env fs args")
  case (Inl e)
  then show ?thesis by (simp add: inventory_plan)
next
  case (Inr p)
  obtain cl ftc where p: "p = (cl, ftc)" by (cases p)
  from write_inventory_hashed_subset
         [of env fs "outfile args \<noteq> None"
             "length (list_files (tree fs) (abspath (getcwd env) (path args)))" cl ftc
             "\<lparr>stdout = banner env args,
               destination = (if outfile args = None then None else Some []),
               hashed = [], count = 0, raised = None\<rparr>"]
       plan_files [of env fs args cl ftc] Inr p
  show ?thesis by (auto simp: inventory_plan)
qed

section \<open>The examples, evaluated\<close>

lemma demo_abspath:
  "abspath (getcwd demo_env) ''/data'' = ''/data''"
  "abspath (getcwd demo_env) ''/nodata'' = ''/nodata''"
  "abspath (getcwd demo_env) ''out.csv'' = ''/home/u/out.csv''"
  "abspath (getcwd demo_env) ''git.csv'' = ''/home/u/git.csv''"
  "abspath (getcwd demo_env) ''new.csv'' = ''/home/u/new.csv''"
  "abspath (getcwd demo_env) ''/nodata/out.csv'' = ''/nodata/out.csv''"
  by code_simp+

lemma demo_walk:
  "walk ''/data'' [File ''a.txt'', File ''.hidden'', Dir ''sub'' [File ''b.TXT''],
                  Dir ''.git'' [File ''config'']] = [''/data/a.txt'', ''/data/sub/b.TXT'']"
proof -
  have "walk ''/data/sub'' [File ''b.TXT''] = [''/data/sub/b.TXT'']"
    by (subst walk.simps) (simp add: startswith_def join_def endswith_def)
  then show ?thesis
    by (subst walk.simps) (simp add: startswith_def join_def endswith_def)
qed

lemma demo_all_files:
  "list_files demo_tree ''/data'' = [''/data/a.txt'', ''/data/sub/b.TXT'']"
  "list_files demo_tree ''/nodata'' = []"
  "list_files demo_tree ''/empty'' = []"
  by (simp_all add: list_files_def demo_tree_def demo_walk walk.simps [of _ "[]"])

lemma read_chunks_short:
  "d \<noteq> [] \<Longrightarrow> length d \<le> 8192 \<Longrightarrow> read_chunks d = [d]"
  by (subst read_chunks.simps, subst read_chunks.simps) simp

lemma demo_stat_at:
  "stat demo_fs ''/data/a.txt'' = Inr \<lparr>st_mtime = 5, st_size = 10, content = Inr ''0123456789''\<rparr>"
  "stat demo_fs ''/data/sub/b.TXT'' = Inr \<lparr>st_mtime = 7, st_size = 2, content = Inr ''bb''\<rparr>"
  "stat demo_race_fs ''/data/a.txt'' = Inl FileNotFoundError"
  "stat demo_race_fs ''/data/sub/b.TXT''
     = Inr \<lparr>st_mtime = 7, st_size = 2, content = Inr ''bb''\<rparr>"
  by (simp_all add: demo_fs_def demo_race_fs_def demo_stat_def)

lemma demo_md5sum:
  "md5sum demo_env demo_fs ''/data/a.txt'' = Inr ''0123456789''"
  "md5sum demo_env demo_fs ''/data/sub/b.TXT'' = Inr ''bb''"
  "md5sum demo_env demo_race_fs ''/data/sub/b.TXT'' = Inr ''bb''"
  by (simp_all add: md5sum_def demo_fs_def demo_race_fs_def demo_stat_def demo_env_def
        read_chunks_short)

lemma demo_row_record:
  "row_record (metadata demo_env ''/data/a.txt''
                 \<lparr>st_mtime = 5, st_size = 10, content = Inr ''0123456789''\<rparr> ''0123456789'')
     = Some [''/data'', ''a.txt'', ''TXT'', ''10'', ''5'', ''1970-01-01T00:00:05'', ''0123456789'']"
  "row_record (metadata demo_env ''/data/sub/b.TXT''
                 \<lparr>st_mtime = 7, st_size = 2, content = Inr ''bb''\<rparr> ''bb'')
     = Some [''/data/sub'', ''b.TXT'', ''TXT'', ''2'', ''7'', ''1970-01-01T00:00:07'', ''bb'']"
  by code_simp+

lemma demo_fresh:
  "fresh_record demo_env demo_fs ''/data/a.txt''
     = Some [''/data'', ''a.txt'', ''TXT'', ''10'', ''5'', ''1970-01-01T00:00:05'', ''0123456789'']"
  "fresh_record demo_env demo_fs ''/data/sub/b.TXT''
     = Some [''/data/sub'', ''b.TXT'', ''TXT'', ''2'', ''7'', ''1970-01-01T00:00:07'', ''bb'']"
  "fresh_record demo_env demo_race_fs ''/data/sub/b.TXT''
     = Some [''/data/sub'', ''b.TXT'', ''TXT'', ''2'', ''7'', ''1970-01-01T00:00:07'', ''bb'']"
  by (simp_all add: fresh_record_def demo_stat_at demo_md5sum demo_row_record)

lemma demo_plan:
  "plan demo_env demo_fs \<lparr>path = ''/data'', outfile = None\<rparr>
     = Inr ([], [''/data/a.txt'', ''/data/sub/b.TXT''])"
  "plan demo_env demo_race_fs \<lparr>path = ''/data'', outfile = None\<rparr>
     = Inr ([], [''/data/a.txt'', ''/data/sub/b.TXT''])"
  "plan demo_env demo_fs \<lparr>path = ''/nodata'', outfile = None\<rparr> = Inr ([], [])"
  "plan demo_env demo_fs \<lparr>path = ''/nodata'', outfile = Some ''new.csv''\<rparr> = Inr ([], [])"
  "plan demo_env demo_fs \<lparr>path = ''/nodata'', outfile = Some ''/nodata/out.csv''\<rparr>
     = Inl FileNotFoundError"
  by (simp_all add: plan_def demo_abspath demo_all_files Let_def resume_def read_inventory_def
        demo_fs_def demo_race_fs_def demo_csv_def demo_open_w_def startswith_def)

section \<open>A root that does not exist\<close>

text \<open>
  C4, as the code has it. When the root is not a directory that can be listed,
  \<^verbatim>\<open>list_files\<close> returns the empty list and raises nothing. \<^verbatim>\<open>inventory\<close> then hashes
  nothing; writing to standard output it writes the header row alone and ends without
  an exception, so the exit status is 0; writing to a destination that does not exist
  yet it does the same when the destination can be opened for writing, and ends with
  the exception of \<^verbatim>\<open>open\<close>, the destination untouched, when it cannot. For an empty
  directory \<^verbatim>\<open>list_files\<close> returns the empty list as well.
\<close>

theorem inventory_missing_root:
  assumes root: "tree fs (abspath (getcwd env) (path args)) = None"
  shows "list_files (tree fs) (abspath (getcwd env) (path args)) = []
       \<and> hashed (inventory env fs args) = []
       \<and> (outfile args = None \<longrightarrow>
            raised (inventory env fs args) = None
            \<and> exit_status (inventory env fs args) = 0
            \<and> csv_events (stdout (inventory env fs args)) = [FIELDNAMES])
       \<and> (\<forall>out. outfile args = Some out
              \<longrightarrow> csv fs (abspath (getcwd env) out) = Inl FileNotFoundError
              \<longrightarrow> (case open_w fs (abspath (getcwd env) out) of
                     None \<Rightarrow>
                       raised (inventory env fs args) = None
                       \<and> exit_status (inventory env fs args) = 0
                       \<and> destination (inventory env fs args) = Some [FIELDNAMES]
                   | Some e \<Rightarrow>
                       raised (inventory env fs args) = Some e
                       \<and> exit_status (inventory env fs args) = 1
                       \<and> destination (inventory env fs args) = None))
       \<and> (tree fs p = Some [] \<longrightarrow> list_files (tree fs) p = [])"
proof -
  have nofiles: "list_files (tree fs) (abspath (getcwd env) (path args)) = []"
    using root by (simp add: list_files_def)
  have h: "hashed (inventory env fs args) = []"
    using inventory_hashed_subset [of env fs args] nofiles by simp
  have none: "raised (inventory env fs args) = None
            \<and> exit_status (inventory env fs args) = 0
            \<and> csv_events (stdout (inventory env fs args)) = [FIELDNAMES]"
    if "outfile args = None"
  proof -
    from that nofiles have p: "plan env fs args = Inr ([], [])"
      by (simp add: plan_def)
    from inventory_completes [OF p, of "[]" "[]"] that show ?thesis
      by (simp add: exit_status_def)
  qed
  have some: "case open_w fs (abspath (getcwd env) out) of
                None \<Rightarrow>
                  raised (inventory env fs args) = None
                  \<and> exit_status (inventory env fs args) = 0
                  \<and> destination (inventory env fs args) = Some [FIELDNAMES]
              | Some e \<Rightarrow>
                  raised (inventory env fs args) = Some e
                  \<and> exit_status (inventory env fs args) = 1
                  \<and> destination (inventory env fs args) = None"
    if out: "outfile args = Some out"
      and nofile: "csv fs (abspath (getcwd env) out) = Inl FileNotFoundError"
    for out
  proof (cases "open_w fs (abspath (getcwd env) out)")
    case None
    with out nofile nofiles have p: "plan env fs args = Inr ([], [])"
      by (simp add: plan_def resume_def read_inventory_def)
    from inventory_completes [OF p, of "[]" "[]"] out None show ?thesis
      by (simp add: exit_status_def)
  next
    case (Some e)
    with out nofile nofiles have p: "plan env fs args = Inl e"
      by (simp add: plan_def resume_def read_inventory_def)
    with Some show ?thesis
      by (simp add: inventory_plan exit_status_def)
  qed
  have l: "list_files (tree fs) p = []" if "tree fs p = Some []"
    using that by (simp add: list_files_def walk.simps)
  from nofiles h none some l show ?thesis by blast
qed

theorem inventory_missing_root_witness:
  "list_files (tree demo_fs) ''/nodata'' = []
   \<and> raised (inventory demo_env demo_fs \<lparr>path = ''/nodata'', outfile = Some ''new.csv''\<rparr>) = None
   \<and> destination (inventory demo_env demo_fs \<lparr>path = ''/nodata'', outfile = Some ''new.csv''\<rparr>)
       = Some [FIELDNAMES]
   \<and> raised (inventory demo_env demo_fs
               \<lparr>path = ''/nodata'', outfile = Some ''/nodata/out.csv''\<rparr>)
       = Some FileNotFoundError
   \<and> exit_status (inventory demo_env demo_fs
                    \<lparr>path = ''/nodata'', outfile = Some ''/nodata/out.csv''\<rparr>) = 1
   \<and> list_files (tree demo_fs) ''/empty'' = []"
proof -
  have root: "tree demo_fs (abspath (getcwd demo_env) (path \<lparr>path = ''/nodata'', outfile = x\<rparr>))
                = None" for x
    by (simp add: demo_abspath demo_fs_def demo_tree_def)
  have e: "tree demo_fs ''/empty'' = Some []"
    by (simp add: demo_fs_def demo_tree_def)
  have c: "csv demo_fs ''/home/u/new.csv'' = Inl FileNotFoundError"
    "csv demo_fs ''/nodata/out.csv'' = Inl FileNotFoundError"
    "open_w demo_fs ''/home/u/new.csv'' = None"
    "open_w demo_fs ''/nodata/out.csv'' = Some FileNotFoundError"
    by (simp_all add: demo_fs_def demo_csv_def demo_open_w_def startswith_def)
  from inventory_missing_root [OF root [of "Some ''new.csv''"], of "''/empty''"]
       inventory_missing_root [OF root [of "Some ''/nodata/out.csv''"], of "''/empty''"]
  show ?thesis
    by (simp add: demo_abspath c e)
qed

text \<open>
  C4 as stated fails: at the missing root \<^verbatim>\<open>/nodata\<close> nothing is raised, and the exit
  status is 0.
\<close>

theorem missing_root_counterexample:
  "tree demo_fs ''/nodata'' = None
   \<and> list_files (tree demo_fs) ''/nodata'' = []
   \<and> raised (inventory demo_env demo_fs \<lparr>path = ''/nodata'', outfile = None\<rparr>)
       \<noteq> Some NotFoundError
   \<and> exit_status (inventory demo_env demo_fs \<lparr>path = ''/nodata'', outfile = None\<rparr>) = 0"
proof -
  note r = inventory_completes [OF demo_plan(3), of "[]" "[]"]
  have "tree demo_fs ''/nodata'' = None"
    by (simp add: demo_fs_def demo_tree_def)
  moreover have "list_files (tree demo_fs) ''/nodata'' = []"
    by (simp add: demo_fs_def demo_all_files)
  ultimately show ?thesis
    using r by (simp add: exit_status_def)
qed

section \<open>Hidden files and the inventory\<close>




section \<open>A file that vanishes before it is hashed\<close>

text \<open>
  C6, as the code has it. When the second loop comes to a file that is gone, or that
  cannot be opened or read, the exception is not caught: the run ends there with that
  exception (\<^verbatim>\<open>FileNotFoundError\<close> for a file that is gone) and the exit status is 1. The
  header, the completed items and the records of the files before it have been written;
  the files after it are not examined, and the completion message is not printed.
\<close>

theorem inventory_aborts_at_unreadable_file:
  assumes p: "plan env fs args = Inr (complete_list, pre @ f # post)"
    and cl: "those (map (\<lambda>(k, row). row_record row) complete_list) = Some copied"
    and pre: "those (map (fresh_record env fs) pre) = Some recs"
    and f: "stat fs f = Inl e \<or> (\<exists>s. stat fs f = Inr s \<and> content s = Inl e)"
  shows "raised (inventory env fs args) = Some e
       \<and> exit_status (inventory env fs args) = 1
       \<and> hashed (inventory env fs args)
           = pre @ (case stat fs f of Inl x \<Rightarrow> [] | Inr s \<Rightarrow> [f])
       \<and> (case outfile args of
            None \<Rightarrow> csv_events (stdout (inventory env fs args))
          | Some out \<Rightarrow> dest_records (inventory env fs args))
           = FIELDNAMES # copied @ recs
       \<and> stdout (inventory env fs args)
           = banner env args
             @ (if outfile args = None then Csv FIELDNAMES # map Csv copied else [])
             @ progress (outfile args \<noteq> None) (length complete_list)
                 (length (list_files (tree fs) (abspath (getcwd env) (path args)))) recs"
  using inventory_stops [OF p cl pre f]
  by (cases "outfile args") (simp_all add: exit_status_def dest_records_def)

theorem inventory_aborts_at_unreadable_file_witness:
  "raised (inventory demo_env demo_race_fs \<lparr>path = ''/data'', outfile = None\<rparr>)
     = Some FileNotFoundError
   \<and> exit_status (inventory demo_env demo_race_fs \<lparr>path = ''/data'', outfile = None\<rparr>) = 1
   \<and> hashed (inventory demo_env demo_race_fs \<lparr>path = ''/data'', outfile = None\<rparr>) = []
   \<and> csv_events (stdout (inventory demo_env demo_race_fs \<lparr>path = ''/data'', outfile = None\<rparr>))
       = [FIELDNAMES]"
proof -
  let ?args = "\<lparr>path = ''/data'', outfile = None\<rparr>"
  have p: "plan demo_env demo_race_fs ?args = Inr ([], [] @ ''/data/a.txt'' # [''/data/sub/b.TXT''])"
    by (simp add: demo_plan)
  have cl: "those (map (\<lambda>(k, row). row_record row) []) = Some []" by simp
  have pre: "those (map (fresh_record demo_env demo_race_fs) []) = Some []" by simp
  have f: "stat demo_race_fs ''/data/a.txt'' = Inl FileNotFoundError
           \<or> (\<exists>s. stat demo_race_fs ''/data/a.txt'' = Inr s \<and> content s = Inl FileNotFoundError)"
    by (simp add: demo_race_fs_def)
  have s: "stat demo_race_fs ''/data/a.txt'' = Inl FileNotFoundError"
    by (simp add: demo_race_fs_def)
  from inventory_aborts_at_unreadable_file [OF p cl pre f] show ?thesis
    by (simp add: s)
qed

text \<open>
  C6 as stated fails: \<^verbatim>\<open>/data/a.txt\<close> is gone when its turn comes, and the run does not
  go on to \<^verbatim>\<open>/data/sub/b.TXT\<close>, which is there and readable: nothing is hashed, no data
  row is written, and the run ends with the exception.
\<close>

theorem vanished_file_counterexample:
  "list_files (tree demo_race_fs) ''/data'' = [''/data/a.txt'', ''/data/sub/b.TXT'']
   \<and> stat demo_race_fs ''/data/a.txt'' = Inl FileNotFoundError
   \<and> fresh_record demo_env demo_race_fs ''/data/sub/b.TXT''
       = Some [''/data/sub'', ''b.TXT'', ''TXT'', ''2'', ''7'', ''1970-01-01T00:00:07'', ''bb'']
   \<and> raised (inventory demo_env demo_race_fs \<lparr>path = ''/data'', outfile = None\<rparr>)
       = Some FileNotFoundError
   \<and> hashed (inventory demo_env demo_race_fs \<lparr>path = ''/data'', outfile = None\<rparr>) = []
   \<and> stdout (inventory demo_env demo_race_fs \<lparr>path = ''/data'', outfile = None\<rparr>)
       = [Print [CHR 0x0A],
          Print (''preserve.py inventory'' @ [CHR 0x0A]),
          Print (''====================='' @ [CHR 0x0A]),
          Print (''Checking path: /data'' @ [CHR 0x0A]),
          Print (''Writing inventory to stdout'' @ [CHR 0x0A]),
          Csv FIELDNAMES]"
proof -
  let ?args = "\<lparr>path = ''/data'', outfile = None\<rparr>"
  have p: "plan demo_env demo_race_fs ?args = Inr ([], [] @ ''/data/a.txt'' # [''/data/sub/b.TXT''])"
    by (simp add: demo_plan)
  have f: "stat demo_race_fs ''/data/a.txt'' = Inl FileNotFoundError
           \<or> (\<exists>s. stat demo_race_fs ''/data/a.txt'' = Inr s \<and> content s = Inl FileNotFoundError)"
    by (simp add: demo_race_fs_def)
  have s: "stat demo_race_fs ''/data/a.txt'' = Inl FileNotFoundError"
    by (simp add: demo_race_fs_def)
  have l: "list_files (tree demo_race_fs) ''/data'' = [''/data/a.txt'', ''/data/sub/b.TXT'']"
    by (simp add: demo_race_fs_def demo_all_files)
  from inventory_stops [OF p _ _ f, of "[]" "[]"] show ?thesis
    by (simp add: s l demo_fresh banner_def demo_abspath)
qed

section \<open>The CSV records and the progress counter\<close>

text \<open>
  C8, as the code has it. In a run that completes, the records given to the CSV writer
  are the header row followed by the data rows (the copied rows, then the fresh ones).
  With an output file they are the content of that file, and standard output carries
  the banner, the progress counter and the completion message, and no record. Without
  an output file nothing is resumed (every listed file is hashed) and the records go to
  standard output, the stream that \<^verbatim>\<open>print\<close> writes to: after the banner comes the header
  row, then each data row followed by the text of the progress counter, then the
  completion message.
\<close>

theorem inventory_csv_payload:
  assumes p: "plan env fs args = Inr (complete_list, files_to_check)"
    and cl: "those (map (\<lambda>(k, row). row_record row) complete_list) = Some copied"
    and ftc: "those (map (fresh_record env fs) files_to_check) = Some fresh"
  shows "(outfile args \<noteq> None \<longrightarrow>
            destination (inventory env fs args) = Some (FIELDNAMES # copied @ fresh)
            \<and> csv_events (stdout (inventory env fs args)) = []
            \<and> stdout (inventory env fs args)
                = banner env args
                  @ progress True (length complete_list)
                      (length (list_files (tree fs) (abspath (getcwd env) (path args)))) fresh
                  @ trailer)
       \<and> (outfile args = None \<longrightarrow>
            destination (inventory env fs args) = None
            \<and> complete_list = [] \<and> copied = []
            \<and> hashed (inventory env fs args)
                = list_files (tree fs) (abspath (getcwd env) (path args))
            \<and> csv_events (stdout (inventory env fs args)) = FIELDNAMES # fresh
            \<and> stdout (inventory env fs args)
                = banner env args
                  @ Csv FIELDNAMES
                  # progress False 0
                      (length (list_files (tree fs) (abspath (getcwd env) (path args)))) fresh
                  @ trailer)"
proof (cases "outfile args")
  case None
  with p have "complete_list = []"
    and "files_to_check = list_files (tree fs) (abspath (getcwd env) (path args))"
    by (simp_all add: plan_def)
  with cl have "copied = []" by simp
  with inventory_completes [OF p cl ftc] None \<open>complete_list = []\<close>
       \<open>files_to_check = list_files (tree fs) (abspath (getcwd env) (path args))\<close>
  show ?thesis by simp
next
  case (Some out)
  with inventory_completes [OF p cl ftc] show ?thesis by simp
qed

theorem inventory_csv_payload_witness:
  "destination (inventory demo_env demo_fs \<lparr>path = ''/data'', outfile = None\<rparr>) = None
   \<and> hashed (inventory demo_env demo_fs \<lparr>path = ''/data'', outfile = None\<rparr>)
       = [''/data/a.txt'', ''/data/sub/b.TXT'']
   \<and> csv_events (stdout (inventory demo_env demo_fs \<lparr>path = ''/data'', outfile = None\<rparr>))
       = [FIELDNAMES,
          [''/data'', ''a.txt'', ''TXT'', ''10'', ''5'', ''1970-01-01T00:00:05'', ''0123456789''],
          [''/data/sub'', ''b.TXT'', ''TXT'', ''2'', ''7'', ''1970-01-01T00:00:07'', ''bb'']]"
proof -
  have cl: "those (map (\<lambda>(k, row). row_record row) []) = Some []" by simp
  have f: "those (map (fresh_record demo_env demo_fs) [''/data/a.txt'', ''/data/sub/b.TXT''])
             = Some [[''/data'', ''a.txt'', ''TXT'', ''10'', ''5'', ''1970-01-01T00:00:05'',
                      ''0123456789''],
                     [''/data/sub'', ''b.TXT'', ''TXT'', ''2'', ''7'', ''1970-01-01T00:00:07'',
                      ''bb'']]"
    by (simp add: demo_fresh)
  have l: "list_files (tree demo_fs) ''/data'' = [''/data/a.txt'', ''/data/sub/b.TXT'']"
    by (simp add: demo_fs_def demo_all_files)
  from inventory_csv_payload [OF demo_plan(1) cl f] show ?thesis
    by (simp add: demo_abspath l)
qed

text \<open>
  C8 as stated fails: without an output file the progress counter is written to the
  stream that carries the CSV records, between them.
\<close>

theorem progress_in_csv_stream_counterexample:
  "stdout (inventory demo_env demo_fs \<lparr>path = ''/data'', outfile = None\<rparr>)
     = [Print [CHR 0x0A],
        Print (''preserve.py inventory'' @ [CHR 0x0A]),
        Print (''====================='' @ [CHR 0x0A]),
        Print (''Checking path: /data'' @ [CHR 0x0A]),
        Print (''Writing inventory to stdout'' @ [CHR 0x0A]),
        Csv FIELDNAMES,
        Csv [''/data'', ''a.txt'', ''TXT'', ''10'', ''5'', ''1970-01-01T00:00:05'', ''0123456789''],
        Print (''Files checked: 1/2'' @ [CHR 0x0D]),
        Csv [''/data/sub'', ''b.TXT'', ''TXT'', ''2'', ''7'', ''1970-01-01T00:00:07'', ''bb''],
        Print (''Files checked: 2/2'' @ [CHR 0x0D]),
        Print [CHR 0x0A],
        Print (''Inventory complete!'' @ [CHR 0x0A]),
        Print [CHR 0x0A]]"
proof -
  have f: "those (map (fresh_record demo_env demo_fs) [''/data/a.txt'', ''/data/sub/b.TXT''])
             = Some [[''/data'', ''a.txt'', ''TXT'', ''10'', ''5'', ''1970-01-01T00:00:05'',
                      ''0123456789''],
                     [''/data/sub'', ''b.TXT'', ''TXT'', ''2'', ''7'', ''1970-01-01T00:00:07'',
                      ''bb'']]"
    by (simp add: demo_fresh)
  have l: "list_files (tree demo_fs) ''/data'' = [''/data/a.txt'', ''/data/sub/b.TXT'']"
    by (simp add: demo_fs_def demo_all_files)
  have n: "str_nat (Suc 0) = ''1''" "str_nat (Suc (Suc 0)) = ''2''" "str_nat 2 = ''2''"
    by (simp_all add: str_nat.simps digit_def)
  from inventory_completes [OF demo_plan(1) _ f, of "[]"] show ?thesis
    by (simp add: demo_abspath l banner_def trailer_def n)
qed

section \<open>Resuming from an existing inventory\<close>

lemma dict_set_new: "k \<notin> fst ` set d \<Longrightarrow> dict_set d k v = d @ [(k, v)]"
  by (induction d k v rule: dict_set.induct) auto

lemma length7:
  assumes "length (rec :: 'a list) = 7"
  obtains a b c d e f g where "rec = [a, b, c, d, e, f, g]"
proof -
  from assms have "rec = map ((!) rec) [0..<7]"
    by (metis map_nth)
  also have "[0..<7] = [0, 1, 2, 3, 4, 5, 6::nat]"
    by (simp add: upt_rec)
  finally show ?thesis using that by simp
qed

lemma full_row:
  assumes "length rec = 7"
  shows "row_filepath (DictReader_row FIELDNAMES rec) = Inr (record_key rec)"
    and "row_record (DictReader_row FIELDNAMES rec) = Some rec"
proof -
  from assms obtain a b c d e f g where r: "rec = [a, b, c, d, e, f, g]"
    by (rule length7)
  show "row_filepath (DictReader_row FIELDNAMES rec) = Inr (record_key rec)"
    by (simp add: r DictReader_row_def FIELDNAMES_def dict_zip_def row_filepath_def record_key_def)
  show "row_record (DictReader_row FIELDNAMES rec) = Some rec"
    by (simp add: r DictReader_row_def FIELDNAMES_def dict_zip_def row_record_def
          dict_to_list_def cell_def)
qed

lemma read_rows_distinct:
  assumes "map row_filepath rows = map Inr ks" and "distinct (map fst acc @ ks)"
  shows "read_rows acc rows = Inr (acc @ zip ks rows)"
  using assms
proof (induction rows arbitrary: acc ks)
  case Nil
  then show ?case by simp
next
  case (Cons row rows)
  from Cons.prems(1) obtain k ks' where ks: "ks = k # ks'" and k: "row_filepath row = Inr k"
    and rest: "map row_filepath rows = map Inr ks'"
    by (cases ks) auto
  from Cons.prems(2) ks have new: "k \<notin> fst ` set acc"
    and d: "distinct (map fst (acc @ [(k, row)]) @ ks')"
    by auto
  from Cons.IH [OF rest d] show ?case
    by (simp add: ks k dict_set_new [OF new])
qed

lemma read_inventory_full:
  assumes loaded: "files p = Inr (FIELDNAMES # recs)"
    and wf: "\<forall>rec \<in> set recs. length rec = 7"
    and keys: "distinct (map record_key recs)"
  shows "read_inventory files p
           = Inr (zip (map record_key recs) (map (DictReader_row FIELDNAMES) recs))"
    and "those (map (\<lambda>(k, row). row_record row)
                  (zip (map record_key recs) (map (DictReader_row FIELDNAMES) recs)))
           = Some recs"
proof -
  from wf have ne: "filter (\<lambda>r. r \<noteq> []) recs = recs"
    by (induction recs) auto
  have fp: "map row_filepath (map (DictReader_row FIELDNAMES) recs) = map Inr (map record_key recs)"
    using wf by (induction recs) (simp_all add: full_row)
  from read_rows_distinct [OF fp, of "[]"] keys
  show "read_inventory files p
           = Inr (zip (map record_key recs) (map (DictReader_row FIELDNAMES) recs))"
    by (simp add: read_inventory_def loaded DictReader_def ne)
  show "those (map (\<lambda>(k, row). row_record row)
                  (zip (map record_key recs) (map (DictReader_row FIELDNAMES) recs)))
           = Some recs"
    using wf by (induction recs) (simp_all add: full_row)
qed

lemma plan_resume:
  assumes out: "outfile args = Some out"
    and loaded: "csv fs (abspath (getcwd env) out) = Inr (FIELDNAMES # recs)"
    and wf: "\<forall>rec \<in> set recs. length rec = 7"
    and keys: "distinct (map record_key recs)"
    and opened: "open_w fs (abspath (getcwd env) out) = None"
  shows "plan env fs args
           = Inr (zip (map record_key recs) (map (DictReader_row FIELDNAMES) recs),
                  sort_key (str_hash env)
                    (filter (\<lambda>f. f \<notin> set (map record_key recs))
                       (remdups (list_files (tree fs) (abspath (getcwd env) (path args))))))"
  using read_inventory_full(1) [of "csv fs" "abspath (getcwd env) out" recs, OF loaded wf keys]
        wf
  by (simp add: plan_def out resume_def opened Let_def)

text \<open>
  C1, as the code has it. When the destination holds an inventory with the header of
  \<^verbatim>\<open>FIELDNAMES\<close>, full rows and no key twice, and the run completes, the rewritten file is
  the header, then every recorded row, unchanged and in its order, whether or not its
  key is among the scanned paths, then the fresh rows. A file is hashed exactly when it
  was scanned and its key is not among the recorded keys.
\<close>

theorem inventory_resume_keeps_recorded:
  assumes out: "outfile args = Some out"
    and loaded: "csv fs (abspath (getcwd env) out) = Inr (FIELDNAMES # recs)"
    and wf: "\<forall>rec \<in> set recs. length rec = 7"
    and keys: "distinct (map record_key recs)"
    and opened: "open_w fs (abspath (getcwd env) out) = None"
    and fresh: "those (map (fresh_record env fs)
                  (sort_key (str_hash env)
                    (filter (\<lambda>f. f \<notin> set (map record_key recs))
                       (remdups (list_files (tree fs) (abspath (getcwd env) (path args)))))))
                = Some fresh"
  shows "raised (inventory env fs args) = None
       \<and> destination (inventory env fs args) = Some (FIELDNAMES # recs @ fresh)
       \<and> set (hashed (inventory env fs args))
           = set (list_files (tree fs) (abspath (getcwd env) (path args)))
             - set (map record_key recs)"
proof -
  note p = plan_resume [OF out loaded wf keys opened]
  note c = read_inventory_full(2) [of "csv fs" "abspath (getcwd env) out" recs,
             OF loaded wf keys]
  from inventory_completes [OF p c fresh] out show ?thesis
    by auto
qed

theorem inventory_resume_keeps_recorded_witness:
  "raised (inventory demo_env demo_fs \<lparr>path = ''/data'', outfile = Some ''out.csv''\<rparr>) = None
   \<and> destination (inventory demo_env demo_fs \<lparr>path = ''/data'', outfile = Some ''out.csv''\<rparr>)
       = Some [FIELDNAMES,
               [''/data'', ''gone.txt'', ''TXT'', ''1'', ''2'', ''1970-01-01T00:00:02'', ''g''],
               [''/data'', ''a.txt'', ''TXT'', ''10'', ''5'', ''1970-01-01T00:00:05'', ''old''],
               [''/data/sub'', ''b.TXT'', ''TXT'', ''2'', ''7'', ''1970-01-01T00:00:07'', ''bb'']]
   \<and> set (hashed (inventory demo_env demo_fs \<lparr>path = ''/data'', outfile = Some ''out.csv''\<rparr>))
       = {''/data/sub/b.TXT''}"
proof -
  let ?args = "\<lparr>path = ''/data'', outfile = Some ''out.csv''\<rparr>"
  let ?recs = "[[''/data'', ''gone.txt'', ''TXT'', ''1'', ''2'', ''1970-01-01T00:00:02'', ''g''],
                [''/data'', ''a.txt'', ''TXT'', ''10'', ''5'', ''1970-01-01T00:00:05'', ''old'']]"
  have out: "outfile ?args = Some ''out.csv''" by simp
  have loaded: "csv demo_fs (abspath (getcwd demo_env) ''out.csv'') = Inr (FIELDNAMES # ?recs)"
    by (simp add: demo_abspath demo_fs_def demo_csv_def)
  have wf: "\<forall>rec \<in> set ?recs. length rec = 7" by simp
  have k: "map record_key ?recs = [''/data/gone.txt'', ''/data/a.txt'']"
    by (simp add: record_key_def join_def startswith_def endswith_def)
  have keys: "distinct (map record_key ?recs)"
    unfolding k by simp
  have opened: "open_w demo_fs (abspath (getcwd demo_env) ''out.csv'') = None"
    by (simp add: demo_abspath demo_fs_def demo_open_w_def startswith_def)
  have l: "list_files (tree demo_fs) (abspath (getcwd demo_env) (path ?args))
             = [''/data/a.txt'', ''/data/sub/b.TXT'']"
    by (simp add: demo_abspath demo_fs_def demo_all_files)
  have fresh: "those (map (fresh_record demo_env demo_fs)
                  (sort_key (str_hash demo_env)
                    (filter (\<lambda>f. f \<notin> set (map record_key ?recs))
                       (remdups (list_files (tree demo_fs)
                                   (abspath (getcwd demo_env) (path ?args)))))))
                = Some [[''/data/sub'', ''b.TXT'', ''TXT'', ''2'', ''7'', ''1970-01-01T00:00:07'',
                         ''bb'']]"
    unfolding l k by (simp add: demo_fresh)
  from inventory_resume_keeps_recorded [OF out loaded wf keys opened fresh] show ?thesis
    unfolding l k by simp
qed

text \<open>
  C1 as stated fails: \<^verbatim>\<open>/data/gone.txt\<close> is recorded in \<^verbatim>\<open>out.csv\<close> and is not among the
  scanned paths, and its row is in the rewritten file.
\<close>

theorem stale_row_counterexample:
  "''/data/gone.txt'' \<notin> set (list_files (tree demo_fs) ''/data'')
   \<and> record_key [''/data'', ''gone.txt'', ''TXT'', ''1'', ''2'', ''1970-01-01T00:00:02'', ''g'']
       = ''/data/gone.txt''
   \<and> csv demo_fs ''/home/u/out.csv''
       = Inr [FIELDNAMES,
              [''/data'', ''gone.txt'', ''TXT'', ''1'', ''2'', ''1970-01-01T00:00:02'', ''g''],
              [''/data'', ''a.txt'', ''TXT'', ''10'', ''5'', ''1970-01-01T00:00:05'', ''old'']]
   \<and> destination (inventory demo_env demo_fs \<lparr>path = ''/data'', outfile = Some ''out.csv''\<rparr>)
       = Some [FIELDNAMES,
               [''/data'', ''gone.txt'', ''TXT'', ''1'', ''2'', ''1970-01-01T00:00:02'', ''g''],
               [''/data'', ''a.txt'', ''TXT'', ''10'', ''5'', ''1970-01-01T00:00:05'', ''old''],
               [''/data/sub'', ''b.TXT'', ''TXT'', ''2'', ''7'', ''1970-01-01T00:00:07'', ''bb'']]"
proof -
  let ?args = "\<lparr>path = ''/data'', outfile = Some ''out.csv''\<rparr>"
  let ?recs = "[[''/data'', ''gone.txt'', ''TXT'', ''1'', ''2'', ''1970-01-01T00:00:02'', ''g''],
                [''/data'', ''a.txt'', ''TXT'', ''10'', ''5'', ''1970-01-01T00:00:05'', ''old'']]"
  have out: "outfile ?args = Some ''out.csv''" by simp
  have loaded: "csv demo_fs (abspath (getcwd demo_env) ''out.csv'') = Inr (FIELDNAMES # ?recs)"
    by (simp add: demo_abspath demo_fs_def demo_csv_def)
  have wf: "\<forall>rec \<in> set ?recs. length rec = 7" by simp
  have k: "map record_key ?recs = [''/data/gone.txt'', ''/data/a.txt'']"
    by (simp add: record_key_def join_def startswith_def endswith_def)
  have keys: "distinct (map record_key ?recs)"
    unfolding k by simp
  have opened: "open_w demo_fs (abspath (getcwd demo_env) ''out.csv'') = None"
    by (simp add: demo_abspath demo_fs_def demo_open_w_def startswith_def)
  have l: "list_files (tree demo_fs) (abspath (getcwd demo_env) (path ?args))
             = [''/data/a.txt'', ''/data/sub/b.TXT'']"
    by (simp add: demo_abspath demo_fs_def demo_all_files)
  have fresh: "those (map (fresh_record demo_env demo_fs)
                  (sort_key (str_hash demo_env)
                    (filter (\<lambda>f. f \<notin> set (map record_key ?recs))
                       (remdups (list_files (tree demo_fs)
                                   (abspath (getcwd demo_env) (path ?args)))))))
                = Some [[''/data/sub'', ''b.TXT'', ''TXT'', ''2'', ''7'', ''1970-01-01T00:00:07'',
                         ''bb'']]"
    unfolding l k by (simp add: demo_fresh)
  note p = plan_resume [OF out loaded wf keys opened]
  note c = read_inventory_full(2) [of "csv demo_fs" "abspath (getcwd demo_env) ''out.csv''" ?recs,
             OF loaded wf keys]
  from inventory_completes [OF p c fresh] loaded k show ?thesis
    by (simp add: demo_abspath demo_fs_def demo_all_files)
qed

end
